theory Spec2Isabelle
  imports Complex_Main
begin

section \<open>Data model\<close>

text \<open>
  JavaScript numbers are modelled as real numbers: rounding, infinities and the
  sign of zero are left out. The one non-number a computation of this file can
  produce, NaN (arithmetic on \<open>undefined\<close>), is the value \<open>None\<close> of
  \<open>real option\<close>.

  A landmark is the array \<open>[x, y, z, visibility]\<close>; reading a channel beyond
  the end of the array gives \<open>undefined\<close>, the value \<open>None\<close> of \<open>chan\<close>.
\<close>

type_synonym landmark = "real list"

definition chan :: "landmark \<Rightarrow> nat \<Rightarrow> real option" where
  "chan lm i = (if i < length lm then Some (lm ! i) else None)"

text \<open>
  A pose carries the landmark array \<open>kp\<close>, which may be missing. A frame record
  of a timeline is a pose with a timestamp \<open>t\<close> and the detection flag \<open>ok\<close>.
\<close>

record pose =
  kp :: "landmark list option"

record frame = pose +
  t :: real
  ok :: bool

section \<open>VideoPlayer: findPoseForTime\<close>

text \<open>
  The \<open>for (const pose of poseData)\<close> loop with its two variables \<open>closest\<close>
  and \<open>minDiff\<close>.
\<close>

fun nearestLoop :: "real \<Rightarrow> frame list \<Rightarrow> frame \<times> real \<Rightarrow> frame \<times> real" where
  "nearestLoop time [] (closest, minDiff) = (closest, minDiff)"
| "nearestLoop time (p # ps) (closest, minDiff) =
     (let diff = \<bar>t p - time\<bar>
      in if diff < minDiff then nearestLoop time ps (p, diff)
         else nearestLoop time ps (closest, minDiff))"

text \<open>\<open>poseData\<close> is \<open>None\<close> when the property is null or undefined.\<close>

definition findPoseForTime :: "frame list option \<Rightarrow> real \<Rightarrow> frame option" where
  "findPoseForTime poseData time =
     (case poseData of
        None \<Rightarrow> None
      | Some ps \<Rightarrow>
          if length ps = 0 then None
          else Some (fst (nearestLoop time ps (ps ! 0, \<bar>t (ps ! 0) - time\<bar>))))"

section \<open>PoseDiffVisualizer: calculatePoseDifferences\<close>

text \<open>
  \<open>current?.kp\<close>: the landmark array of a pose that may itself be null or
  undefined. An array is truthy whatever its length.
\<close>

definition kpOf :: "'a pose_scheme option \<Rightarrow> landmark list option" where
  "kpOf p = (case p of None \<Rightarrow> None | Some x \<Rightarrow> kp x)"

text \<open>
  \<open>kp[i]\<close>: reading an array beyond its end gives \<open>undefined\<close>; reading a
  property of \<open>undefined\<close> then raises a TypeError.
\<close>

datatype js_error = TypeError

definition elemAt :: "'a list \<Rightarrow> nat \<Rightarrow> 'a option" where
  "elemAt xs i = (if i < length xs then Some (xs ! i) else None)"

text \<open>\<open>v > c\<close> on a value that may be \<open>undefined\<close>: the comparison is then false.\<close>

definition js_gt :: "real option \<Rightarrow> real \<Rightarrow> bool" where
  "js_gt v c = (case v of None \<Rightarrow> False | Some x \<Rightarrow> c < x)"

text \<open>
  \<open>Math.sqrt(Math.pow(a[0] - b[0], 2) + Math.pow(a[1] - b[1], 2))\<close>, the
  expression both functions of the visualizer use. It is NaN as soon as one of
  the four channels read is \<open>undefined\<close>.
\<close>

definition euclid2d :: "landmark \<Rightarrow> landmark \<Rightarrow> real option" where
  "euclid2d a b =
     (case (chan a 0, chan b 0, chan a 1, chan b 1) of
        (Some a0, Some b0, Some a1, Some b1) \<Rightarrow> Some (sqrt ((a0 - b0)\<^sup>2 + (a1 - b1)\<^sup>2))
      | _ \<Rightarrow> None)"

datatype severity_level = high | medium | low

definition severityOf :: "real option \<Rightarrow> severity_level" where
  "severityOf distance =
     (if js_gt distance (1/10) then high
      else if js_gt distance (5/100) then medium else low)"

record difference =
  jointIndex :: nat
  distance :: "real option"
  severity :: severity_level
  currentPosition :: "real option list"
  referencePosition :: "real option list"

definition mkDifference :: "nat \<Rightarrow> landmark \<Rightarrow> landmark \<Rightarrow> difference" where
  "mkDifference i currentPoint refPoint =
     (let d = euclid2d currentPoint refPoint
      in \<lparr> jointIndex = i, distance = d, severity = severityOf d,
           currentPosition = [chan currentPoint 0, chan currentPoint 1],
           referencePosition = [chan refPoint 0, chan refPoint 1] \<rparr>)"

text \<open>
  The body of the \<open>for\<close> loop at index \<open>i\<close>. \<open>&&\<close> evaluates its right operand
  only when the left one holds, so the reference landmark is read only then.
\<close>

definition diffBody ::
  "landmark list \<Rightarrow> landmark list \<Rightarrow> nat \<Rightarrow> difference list \<Rightarrow> js_error + difference list" where
  "diffBody ckp rkp i differences =
     (case elemAt ckp i of
        None \<Rightarrow> Inl TypeError
      | Some currentPoint \<Rightarrow>
          if \<not> js_gt (chan currentPoint 3) (1/2) then Inr differences
          else (case elemAt rkp i of
                  None \<Rightarrow> Inl TypeError
                | Some refPoint \<Rightarrow>
                    if \<not> js_gt (chan refPoint 3) (1/2) then Inr differences
                    else Inr (differences @ [mkDifference i currentPoint refPoint])))"

fun diffLoop ::
  "landmark list \<Rightarrow> landmark list \<Rightarrow> nat list \<Rightarrow> difference list \<Rightarrow> js_error + difference list" where
  "diffLoop ckp rkp [] differences = Inr differences"
| "diffLoop ckp rkp (i # is) differences =
     (case diffBody ckp rkp i differences of
        Inl e \<Rightarrow> Inl e
      | Inr differences' \<Rightarrow> diffLoop ckp rkp is differences')"

definition calculatePoseDifferences ::
  "'a pose_scheme option \<Rightarrow> 'b pose_scheme option \<Rightarrow> js_error + difference list" where
  "calculatePoseDifferences current reference =
     (case kpOf current of
        None \<Rightarrow> Inr []
      | Some ckp \<Rightarrow>
          (case kpOf reference of
             None \<Rightarrow> Inr []
           | Some rkp \<Rightarrow>
               (let minLength = min (length ckp) (length rkp)
                in diffLoop ckp rkp [0..<minLength] [])))"

section \<open>PoseDiffVisualizer: calculateJointAccuracyScores\<close>

definition criticalJoints :: "(string \<times> nat) list" where
  "criticalJoints =
     [(''leftShoulder'', 11), (''rightShoulder'', 12),
      (''leftElbow'', 13), (''rightElbow'', 14),
      (''leftWrist'', 15), (''rightWrist'', 16),
      (''leftHip'', 23), (''rightHip'', 24),
      (''leftKnee'', 25), (''rightKnee'', 26),
      (''leftAnkle'', 27), (''rightAnkle'', 28)]"

text \<open>\<open>Math.round\<close>: the nearest integer, a tie going up.\<close>

definition Math_round :: "real \<Rightarrow> int" where
  "Math_round x = \<lfloor>x + 1/2\<rfloor>"

text \<open>\<open>Math.max(0, 100 - (distance * 1000))\<close> on a distance that is a number.\<close>

definition accuracyOf :: "real \<Rightarrow> real" where
  "accuracyOf d = max 0 (100 - d * 1000)"

datatype status_level = excellent | good | needsWork

definition statusOf :: "real option \<Rightarrow> status_level" where
  "statusOf accuracy =
     (if js_gt accuracy 80 then excellent
      else if js_gt accuracy 60 then good else needsWork)"

text \<open>
  One entry of \<open>scores\<close>. A NaN distance makes the accuracy NaN as well
  (\<open>Math.max\<close> and \<open>Math.round\<close> both return NaN on NaN).
\<close>

record jointScore =
  joint_accuracy :: "int option"
  joint_distance :: "real option"
  status :: status_level

definition mkJointScore :: "landmark \<Rightarrow> landmark \<Rightarrow> jointScore" where
  "mkJointScore currentPoint refPoint =
     (let d = euclid2d currentPoint refPoint;
          accuracy = map_option accuracyOf d
      in \<lparr> joint_accuracy = map_option Math_round accuracy,
           joint_distance = d,
           status = statusOf accuracy \<rparr>)"

text \<open>\<open>current?.kp?.[index]\<close>: \<open>undefined\<close> unless the pose, its \<open>kp\<close> and the entry exist.\<close>

definition kpAt :: "'a pose_scheme option \<Rightarrow> nat \<Rightarrow> landmark option" where
  "kpAt p index = (case kpOf p of None \<Rightarrow> None | Some k \<Rightarrow> elemAt k index)"

text \<open>The callback of \<open>forEach\<close>, on the object \<open>scores\<close> built so far.\<close>

definition scoreJoint ::
  "'a pose_scheme option \<Rightarrow> 'b pose_scheme option \<Rightarrow> (string \<rightharpoonup> jointScore) \<Rightarrow>
   string \<times> nat \<Rightarrow> (string \<rightharpoonup> jointScore)" where
  "scoreJoint current reference scores entry =
     (case entry of (jointName, index) \<Rightarrow>
        (case kpAt current index of
           None \<Rightarrow> scores
         | Some currentPoint \<Rightarrow>
             (case kpAt reference index of
                None \<Rightarrow> scores
              | Some refPoint \<Rightarrow> scores(jointName \<mapsto> mkJointScore currentPoint refPoint))))"

definition calculateJointAccuracyScores ::
  "'a pose_scheme option \<Rightarrow> 'b pose_scheme option \<Rightarrow> (string \<rightharpoonup> jointScore)" where
  "calculateJointAccuracyScores current reference =
     foldl (scoreJoint current reference) Map.empty criticalJoints"

section \<open>RealtimeScorer (first version)\<close>

text \<open>
  The body of \<open>response.data\<close>. The state of the component is the six
  \<open>useState\<close> values and the ref \<open>totalScoreRef\<close>.
\<close>

record response =
  points_earned :: real
  similarity :: real
  message :: string

record scorer =
  totalScore :: real
  currentPoints :: real
  pointGain :: "real option"
  showPointGain :: bool
  accuracy :: int
  frameCount :: nat
  totalScoreRef :: real

definition initialScorer :: scorer where
  "initialScorer =
     \<lparr> totalScore = 0, currentPoints = 0, pointGain = None, showPointGain = False,
       accuracy = 0, frameCount = 0, totalScoreRef = 0 \<rparr>"

text \<open>
  What sendPoseForScoring does to the state once the request has resolved
  (the statements after \<open>await axios.post\<close>). The call of \<open>onScoreUpdate\<close>
  changes the parent's state, not the component's, and is left out.
\<close>

definition scoreResponse :: "response \<Rightarrow> 'a scorer_scheme \<Rightarrow> 'a scorer_scheme" where
  "scoreResponse r st =
     (let newTotalScore = totalScoreRef st + points_earned r;
          newFrameCount = frameCount st + 1;
          newAccuracy = (if newFrameCount > 0 then newTotalScore / real newFrameCount
                         else points_earned r)
      in st\<lparr> currentPoints := points_earned r,
             totalScoreRef := newTotalScore,
             totalScore := newTotalScore,
             frameCount := newFrameCount,
             accuracy := Math_round newAccuracy,
             pointGain := (if points_earned r > 0 then Some (points_earned r) else pointGain st),
             showPointGain := (if points_earned r > 0 then True else showPointGain st) \<rparr>)"

text \<open>The \<open>else\<close> branch of the effect on \<open>isGameStarted\<close>: "Reset scores when game stops".\<close>

definition resetScores :: "'a scorer_scheme \<Rightarrow> 'a scorer_scheme" where
  "resetScores st =
     st\<lparr> totalScore := 0, currentPoints := 0, pointGain := None, showPointGain := False,
         accuracy := 0, frameCount := 0, totalScoreRef := 0 \<rparr>"

text \<open>
  The mounted component: its state, its props, its other refs, and what is
  pending outside it. \<open>onScoreUpdate\<close> is the identity of the callback the
  parent passed (\<open>None\<close> when it passed none); \<open>intervalRef\<close> is true when
  \<open>intervalRef.current\<close> holds a timer that has not been cleared (there is at
  most one: a new timer is set only after the previous one is cleared);
  \<open>inFlight\<close> counts the requests whose response has not arrived,
  \<open>hideTimers\<close> the pending one-second timers of the point gain animation,
  and \<open>requestsSent\<close> the calls of \<open>axios.post\<close> made so far.
\<close>

record component = scorer +
  isGameStarted :: bool
  poseData :: "pose option"
  onScoreUpdate :: "nat option"
  poseDataRef :: "pose option"
  isGameStartedRef :: bool
  intervalRef :: bool
  inFlight :: nat
  hideTimers :: nat
  requestsSent :: nat

text \<open>
  What can happen to a mounted component: the parent renders it with new props,
  the interval timer fires, a pending request resolves with a response or
  fails, a hide timer fires.
\<close>

datatype event =
    Render bool "pose option" "nat option"
  | Tick
  | Response response
  | RequestFailed
  | HideTimer

text \<open>
  The effect with dependencies \<open>[isGameStarted, onScoreUpdate]\<close>, run with the
  new props: its cleanup clears the timer, then the body either sets a new one
  or resets the scores.
\<close>

definition intervalEffect :: "component \<Rightarrow> component" where
  "intervalEffect st =
     (if isGameStarted st then st\<lparr> intervalRef := True \<rparr>
      else resetScores (st\<lparr> intervalRef := False \<rparr>))"

text \<open>
  A render with the props \<open>(g, p, cb)\<close>, followed by its effects: the first
  effect copies the props into the refs, the second runs when one of its
  dependencies changed.
\<close>

definition render :: "bool \<Rightarrow> pose option \<Rightarrow> nat option \<Rightarrow> component \<Rightarrow> component" where
  "render g p cb st =
     (let changed = (g \<noteq> isGameStarted st \<or> cb \<noteq> onScoreUpdate st);
          st1 = st\<lparr> isGameStarted := g, poseData := p, onScoreUpdate := cb,
                    poseDataRef := p, isGameStartedRef := g \<rparr>
      in if changed then intervalEffect st1 else st1)"

text \<open>The first render: the initial state, then both effects.\<close>

definition mount :: "bool \<Rightarrow> pose option \<Rightarrow> nat option \<Rightarrow> component" where
  "mount g p cb =
     intervalEffect
       \<lparr> totalScore = 0, currentPoints = 0, pointGain = None, showPointGain = False,
         accuracy = 0, frameCount = 0, totalScoreRef = 0,
         isGameStarted = g, poseData = p, onScoreUpdate = cb,
         poseDataRef = p, isGameStartedRef = g, intervalRef = False,
         inFlight = 0, hideTimers = 0, requestsSent = 0 \<rparr>"

text \<open>
  The start of sendPoseForScoring, up to the request: nothing is sent unless
  the game is started and there is a pose; reading \<open>kp.length\<close> of a pose
  without \<open>kp\<close> throws before the request.
\<close>

definition sendPoseForScoring :: "component \<Rightarrow> component" where
  "sendPoseForScoring st =
     (if \<not> isGameStartedRef st \<or> poseDataRef st = None then st
      else if kpOf (poseDataRef st) = None then st
      else st\<lparr> inFlight := inFlight st + 1, requestsSent := requestsSent st + 1 \<rparr>)"

fun step :: "event \<Rightarrow> component \<Rightarrow> component" where
  "step (Render g p cb) st = render g p cb st"
| "step Tick st = (if intervalRef st then sendPoseForScoring st else st)"
| "step (Response r) st =
     (if inFlight st = 0 then st
      else (let st1 = scoreResponse r (st\<lparr> inFlight := inFlight st - 1 \<rparr>)
            in if points_earned r > 0 then st1\<lparr> hideTimers := hideTimers st1 + 1 \<rparr> else st1))"
| "step RequestFailed st = (if inFlight st = 0 then st else st\<lparr> inFlight := inFlight st - 1 \<rparr>)"
| "step HideTimer st =
     (if hideTimers st = 0 then st
      else st\<lparr> showPointGain := False, hideTimers := hideTimers st - 1 \<rparr>)"

definition run :: "event list \<Rightarrow> component \<Rightarrow> component" where
  "run es st = foldl (\<lambda>s e. step e s) st es"

text \<open>A run of responses alone, each applied to the state the previous one left.\<close>

definition applyResponses :: "response list \<Rightarrow> 'a scorer_scheme \<Rightarrow> 'a scorer_scheme" where
  "applyResponses rs st = foldl (\<lambda>s r. scoreResponse r s) st rs"

section \<open>RealtimeScorer (second version)\<close>

text \<open>
  The second version of the component has the same six \<open>useState\<close> values and
  the ref, and one more state, \<open>gameStartTime\<close>, which it never sets. Its
  names carry the suffix 2.
\<close>

record scorer2 =
  totalScore2 :: real
  currentPoints2 :: real
  pointGain2 :: "real option"
  showPointGain2 :: bool
  accuracy2 :: int
  frameCount2 :: nat
  gameStartTime2 :: "real option"
  totalScoreRef2 :: real

text \<open>
  The statements of sendPoseForScoring after the request has resolved.
  \<open>setFrameCount(prev => prev + 1)\<close> works on the current state, but the
  accuracy is computed from the variable \<open>frameCount\<close> of the closure:
  sendPoseForScoring is memoized by \<open>useCallback\<close> with the dependencies
  \<open>[isGameStarted, onScoreUpdate]\<close>, so that variable holds the frame count of
  the render in which the callback was last created. It is the first argument
  here.
\<close>

definition scoreResponse2 :: "nat \<Rightarrow> response \<Rightarrow> 'a scorer2_scheme \<Rightarrow> 'a scorer2_scheme" where
  "scoreResponse2 closureCount r st =
     (let newTotalScore = totalScoreRef2 st + points_earned r;
          newAccuracy = (if closureCount > 0 then newTotalScore / real (closureCount + 1)
                         else points_earned r)
      in st\<lparr> currentPoints2 := points_earned r,
             totalScoreRef2 := newTotalScore,
             totalScore2 := newTotalScore,
             frameCount2 := frameCount2 st + 1,
             accuracy2 := Math_round newAccuracy,
             pointGain2 := (if points_earned r > 0 then Some (points_earned r) else pointGain2 st),
             showPointGain2 := (if points_earned r > 0 then True else showPointGain2 st) \<rparr>)"

text \<open>The effect "Reset scores when game resets": the six states, not the ref.\<close>

definition resetScores2 :: "'a scorer2_scheme \<Rightarrow> 'a scorer2_scheme" where
  "resetScores2 st =
     st\<lparr> totalScore2 := 0, currentPoints2 := 0, pointGain2 := None, showPointGain2 := False,
         accuracy2 := 0, frameCount2 := 0 \<rparr>"

text \<open>
  The mounted component. \<open>closureFrameCount\<close> is the \<open>frameCount\<close> inside the
  memoized sendPoseForScoring; \<open>interval2\<close> is true when the interval of the
  scoring effect is set; \<open>pending2\<close> lists, oldest first, the requests in
  flight, each with the \<open>frameCount\<close> of the closure that sent it.
\<close>

record component2 = scorer2 +
  isGameStarted2 :: bool
  poseData2 :: "pose option"
  onScoreUpdate2 :: "nat option"
  closureFrameCount :: nat
  interval2 :: bool
  pending2 :: "nat list"
  hideTimers2 :: nat

text \<open>
  A render with the props \<open>(g, p, cb)\<close> and its effects. \<open>useCallback\<close>
  creates a new sendPoseForScoring when \<open>isGameStarted\<close> or \<open>onScoreUpdate\<close>
  changed, and that closure sees the frame count of this render. The scoring
  effect clears its interval and sets a new one exactly when there is a pose
  and the game is started. The reset effect runs when \<open>isGameStarted\<close> changed,
  and resets when the game is not started.
\<close>

definition render2 :: "bool \<Rightarrow> pose option \<Rightarrow> nat option \<Rightarrow> component2 \<Rightarrow> component2" where
  "render2 g p cb st =
     (let recreated = (g \<noteq> isGameStarted2 st \<or> cb \<noteq> onScoreUpdate2 st);
          st1 = st\<lparr> isGameStarted2 := g, poseData2 := p, onScoreUpdate2 := cb,
                    closureFrameCount := (if recreated then frameCount2 st else closureFrameCount st),
                    interval2 := (p \<noteq> None \<and> g) \<rparr>
      in if g \<noteq> isGameStarted2 st \<and> \<not> g then resetScores2 st1 else st1)"

definition mount2 :: "bool \<Rightarrow> pose option \<Rightarrow> nat option \<Rightarrow> component2" where
  "mount2 g p cb =
     (let st = \<lparr> totalScore2 = 0, currentPoints2 = 0, pointGain2 = None,
                  showPointGain2 = False, accuracy2 = 0, frameCount2 = 0,
                  gameStartTime2 = None, totalScoreRef2 = 0,
                  isGameStarted2 = g, poseData2 = p, onScoreUpdate2 = cb,
                  closureFrameCount = 0, interval2 = (p \<noteq> None \<and> g),
                  pending2 = [], hideTimers2 = 0 \<rparr>
      in if \<not> g then resetScores2 st else st)"

text \<open>
  The start of sendPoseForScoring, called by the interval with the pose of the
  render that set the interval.
\<close>

definition sendPoseForScoring2 :: "component2 \<Rightarrow> component2" where
  "sendPoseForScoring2 st =
     (if \<not> isGameStarted2 st \<or> poseData2 st = None then st
      else if kpOf (poseData2 st) = None then st
      else st\<lparr> pending2 := pending2 st @ [closureFrameCount st] \<rparr>)"

fun step2 :: "event \<Rightarrow> component2 \<Rightarrow> component2" where
  "step2 (Render g p cb) st = render2 g p cb st"
| "step2 Tick st = (if interval2 st then sendPoseForScoring2 st else st)"
| "step2 (Response r) st =
     (case pending2 st of
        [] \<Rightarrow> st
      | closureCount # rest \<Rightarrow>
          (let st1 = scoreResponse2 closureCount r (st\<lparr> pending2 := rest \<rparr>)
           in if points_earned r > 0 then st1\<lparr> hideTimers2 := hideTimers2 st1 + 1 \<rparr> else st1))"
| "step2 RequestFailed st = st\<lparr> pending2 := tl (pending2 st) \<rparr>"
| "step2 HideTimer st =
     (if hideTimers2 st = 0 then st
      else st\<lparr> showPointGain2 := False, hideTimers2 := hideTimers2 st - 1 \<rparr>)"

definition run2 :: "event list \<Rightarrow> component2 \<Rightarrow> component2" where
  "run2 es st = foldl (\<lambda>s e. step2 e s) st es"

text \<open>
  A run of responses alone, each paired with the frame count its closure saw.
\<close>

definition applyResponses2 ::
  "(nat \<times> response) list \<Rightarrow> 'a scorer2_scheme \<Rightarrow> 'a scorer2_scheme" where
  "applyResponses2 crs st = foldl (\<lambda>s (c, r). scoreResponse2 c r s) st crs"

section \<open>Timeline Aligner and Comparator\<close>

text \<open>
  Modelled from the spec: the comparator of two angle timelines (the Python
  side of the repository) is not among the sources. The definitions of this
  section follow section 4.5 of the specification step by step, on the Angle
  Record of its section 3. An angle that is undefined for a frame is \<open>None\<close>.
\<close>

record angle_record =
  ar_t :: real
  elbow_L :: "real option"
  elbow_R :: "real option"
  knee_L :: "real option"
  knee_R :: "real option"

type_synonym timeline = "angle_record list"

datatype compare_error = NoOverlap | InsufficientSamples

text \<open>
  Modelled from the spec: step 1, the overlap window
  \<open>t_start = max(min(ref.t), min(usr.t))\<close>, \<open>t_end = min(max(ref.t), max(usr.t))\<close>,
  failing with "no overlap" when \<open>t_start \<ge> t_end\<close>. A timeline without records
  has no times, and overlaps nothing.
\<close>

definition overlapWindow :: "timeline \<Rightarrow> timeline \<Rightarrow> compare_error + real \<times> real" where
  "overlapWindow ref usr =
     (if ref = [] \<or> usr = [] then Inl NoOverlap
      else (let t_start = max (Min (set (map ar_t ref))) (Min (set (map ar_t usr)));
                t_end = min (Max (set (map ar_t ref))) (Max (set (map ar_t usr)))
            in if t_start \<ge> t_end then Inl NoOverlap else Inr (t_start, t_end)))"

text \<open>
  Modelled from the spec: step 2, \<open>N\<close> evenly spaced timestamps across
  \<open>[t_start, t_end]\<close>, both ends included. A single timestamp is \<open>t_start\<close>.
\<close>

definition sampleTimes :: "real \<Rightarrow> real \<Rightarrow> nat \<Rightarrow> real list" where
  "sampleTimes t_start t_end N =
     (if N = 1 then [t_start]
      else map (\<lambda>i. t_start + (t_end - t_start) * real i / real (N - 1)) [0..<N])"

text \<open>
  Modelled from the spec: step 3, the records of a timeline that have a value
  in one angle channel ("frames lacking an angle value are excluded from
  interpolation").
\<close>

definition validPoints :: "(angle_record \<Rightarrow> real option) \<Rightarrow> timeline \<Rightarrow> (real \<times> real) list" where
  "validPoints channel tline = List.map_filter (\<lambda>r. map_option (Pair (ar_t r)) (channel r)) tline"

text \<open>
  Modelled from the spec: step 3, linear interpolation between the two
  bracketing records; a timestamp that falls on a record takes that record's
  value. The timeline is in timestamp order, so the bracket is the last point
  before and the first point after the timestamp. Where only one side has a
  valid point its value is taken (the nearest valid neighbour); a channel
  without any valid point gives no value.
\<close>

definition interpolate :: "(real \<times> real) list \<Rightarrow> real \<Rightarrow> real option" where
  "interpolate pts q =
     (case filter (\<lambda>p. fst p = q) pts of
        p # _ \<Rightarrow> Some (snd p)
      | [] \<Rightarrow>
         (case (filter (\<lambda>p. fst p < q) pts, filter (\<lambda>p. q < fst p) pts) of
            ([], []) \<Rightarrow> None
          | ([], hi # _) \<Rightarrow> Some (snd hi)
          | (l # ls, []) \<Rightarrow> Some (snd (last (l # ls)))
          | (l # ls, hi # _) \<Rightarrow>
              (let lo = last (l # ls)
               in Some (snd lo + (snd hi - snd lo) * (q - fst lo) / (fst hi - fst lo)))))"

text \<open>
  Modelled from the spec: step 4, the 4-dimensional vector
  \<open>(elbow_L, elbow_R, knee_L, knee_R)\<close> of a timeline at a timestamp, each
  channel resampled on its own; \<open>None\<close> when a channel has no value.
\<close>

definition angleVector :: "timeline \<Rightarrow> real \<Rightarrow> real list option" where
  "angleVector tline q =
     those (map (\<lambda>channel. interpolate (validPoints channel tline) q)
                [elbow_L, elbow_R, knee_L, knee_R])"

definition dot :: "real list \<Rightarrow> real list \<Rightarrow> real" where
  "dot a b = sum_list (map (\<lambda>(x, y). x * y) (zip a b))"

definition magnitude :: "real list \<Rightarrow> real" where
  "magnitude a = sqrt (dot a a)"

text \<open>
  Modelled from the spec: step 4, \<open>cos_sim = (a . b) / (|a| |b|)\<close> clamped to
  \<open>[-1, 1]\<close> and mapped to \<open>[0, 1]\<close> by \<open>(cos_sim + 1) / 2\<close>; a sample with a
  vector of zero magnitude is undefined.
\<close>

definition cosineScore :: "real list \<Rightarrow> real list \<Rightarrow> real option" where
  "cosineScore a b =
     (if magnitude a = 0 \<or> magnitude b = 0 then None
      else Some ((max (- 1) (min 1 (dot a b / (magnitude a * magnitude b))) + 1) / 2))"

definition sampleScore :: "timeline \<Rightarrow> timeline \<Rightarrow> real \<Rightarrow> real option" where
  "sampleScore ref usr q =
     (case angleVector ref q of
        None \<Rightarrow> None
      | Some a \<Rightarrow> (case angleVector usr q of None \<Rightarrow> None | Some b \<Rightarrow> cosineScore a b))"

text \<open>
  Modelled from the spec: the comparison report of section 6, the aggregate
  and the per-sample series; an undefined sample stays in the series without a
  score.
\<close>

record report =
  r_mean :: real
  r_min :: real
  r_max :: real
  series :: "(real \<times> real option) list"

text \<open>
  Modelled from the spec: step 5 and the failure modes. Undefined samples are
  excluded from the aggregation; fewer than 2 valid samples are reported as
  "insufficient valid samples".
\<close>

definition compareTimelines :: "timeline \<Rightarrow> timeline \<Rightarrow> nat \<Rightarrow> compare_error + report" where
  "compareTimelines ref usr N =
     (case overlapWindow ref usr of
        Inl e \<Rightarrow> Inl e
      | Inr (t_start, t_end) \<Rightarrow>
          (let samples = map (\<lambda>q. (q, sampleScore ref usr q)) (sampleTimes t_start t_end N);
               valid = List.map_filter snd samples
           in if length valid < 2 then Inl InsufficientSamples
              else Inr \<lparr> r_mean = sum_list valid / real (length valid),
                         r_min = Min (set valid),
                         r_max = Max (set valid),
                         series = samples \<rparr>))"

section \<open>App: the scorer is mounted while the game is started\<close>

text \<open>
  Both versions of App render the component as
  \<open>{isGameStarted && (<RealtimeScorer isGameStarted={isGameStarted} ... />)}\<close>,
  and nothing else renders it: the scorer exists only while the game is
  started, and it is never rendered with \<open>isGameStarted = false\<close>. When
  \<open>setIsGameStarted(true)\<close> takes effect a new instance is mounted in its
  initial state. When the game stops (\<open>handleVideoEnd\<close>, \<open>resetGame\<close>) the
  instance is unmounted: the cleanup of its effect clears the timer, and its
  state is dropped. A request in flight at that moment outlives the instance;
  when it resolves, React ignores the state updates of the unmounted instance.

  \<open>scorerInstance\<close> is the mounted instance, \<open>None\<close> when there is none;
  \<open>orphanRequests\<close> counts the requests in flight whose instance is
  unmounted; \<open>callsBefore\<close> counts the calls of \<open>axios.post\<close> made by the
  instances unmounted so far.
\<close>

record app =
  scorerInstance :: "component option"
  orphanRequests :: nat
  callsBefore :: nat

definition initialApp :: app where
  "initialApp = \<lparr> scorerInstance = None, orphanRequests = 0, callsBefore = 0 \<rparr>"

text \<open>
  What can happen to the application, as far as the scorer is concerned: App
  renders with the current \<open>isGameStarted\<close>, pose and callback; the interval
  timer of the mounted instance fires; a request of the mounted instance
  resolves or fails; a hide timer fires; a request of an unmounted instance
  resolves or fails.
\<close>

datatype app_event =
    AppRender bool "pose option" "nat option"
  | IntervalFires
  | ResponseArrives response
  | RequestFails
  | HideTimerFires
  | OrphanResponseArrives response
  | OrphanRequestFails

text \<open>An event of the mounted instance; without an instance nothing happens.\<close>

definition onScorer :: "event \<Rightarrow> app \<Rightarrow> app" where
  "onScorer e a =
     (case scorerInstance a of
        None \<Rightarrow> a
      | Some c \<Rightarrow> a\<lparr> scorerInstance := Some (step e c) \<rparr>)"

fun appStep :: "app_event \<Rightarrow> app \<Rightarrow> app" where
  "appStep (AppRender g p cb) a =
     (case scorerInstance a of
        None \<Rightarrow> (if g then a\<lparr> scorerInstance := Some (mount g p cb) \<rparr> else a)
      | Some c \<Rightarrow>
          (if g then a\<lparr> scorerInstance := Some (render g p cb c) \<rparr>
           else a\<lparr> scorerInstance := None,
                   orphanRequests := orphanRequests a + inFlight c,
                   callsBefore := callsBefore a + requestsSent c \<rparr>))"
| "appStep IntervalFires a = onScorer Tick a"
| "appStep (ResponseArrives r) a = onScorer (Response r) a"
| "appStep RequestFails a = onScorer RequestFailed a"
| "appStep HideTimerFires a = onScorer HideTimer a"
| "appStep (OrphanResponseArrives r) a = a\<lparr> orphanRequests := orphanRequests a - 1 \<rparr>"
| "appStep OrphanRequestFails a = a\<lparr> orphanRequests := orphanRequests a - 1 \<rparr>"

definition appRun :: "app_event list \<Rightarrow> app \<Rightarrow> app" where
  "appRun es a = foldl (\<lambda>s e. appStep e s) a es"


section \<open>Vocabulary of the statements\<close>

text \<open>
  The constants of this section do not occur in the source. They name what the
  statements about the source talk about: the visibility test both landmarks
  must pass, the length of a pose's landmark array, the indices of the key
  joints, and small concrete inputs on which the functions are evaluated.
\<close>

definition bothVisible :: "landmark list \<Rightarrow> landmark list \<Rightarrow> nat \<Rightarrow> bool" where
  "bothVisible ckp rkp i \<longleftrightarrow> js_gt (chan (ckp ! i) 3) (1/2) \<and> js_gt (chan (rkp ! i) 3) (1/2)"

definition kpLength :: "'a pose_scheme option \<Rightarrow> nat" where
  "kpLength p = (case kpOf p of None \<Rightarrow> 0 | Some k \<Rightarrow> length k)"

definition keyJointIndices :: "nat list" where
  "keyJointIndices = map snd criticalJoints"

text \<open>
  A landmark is hidden when its visibility is not above 0.5; a landmark the
  pose does not have counts as hidden.
\<close>

definition hiddenAt :: "'a pose_scheme option \<Rightarrow> nat \<Rightarrow> bool" where
  "hiddenAt p i = (case kpAt p i of None \<Rightarrow> True | Some lm \<Rightarrow> \<not> js_gt (chan lm 3) (1/2))"

definition keyJointsHidden :: "'a pose_scheme option \<Rightarrow> bool" where
  "keyJointsHidden p = list_all (hiddenAt p) keyJointIndices"

definition allJointsHidden :: "'a pose_scheme option \<Rightarrow> bool" where
  "allJointsHidden p = list_all (hiddenAt p) [0..<kpLength p]"

text \<open>
  Two poses of 33 landmarks: one whose nose alone is visible, one with no
  visible landmark. Two short poses of different lengths. A timeline of three
  records.
\<close>

definition noseOnlyPose :: pose where
  "noseOnlyPose = \<lparr> kp = Some ([1/2, 1/2, 0, 9/10] # replicate 32 [0, 0, 0, 0]) \<rparr>"

definition hiddenPose :: pose where
  "hiddenPose = \<lparr> kp = Some (replicate 33 [0, 0, 0, 0]) \<rparr>"

definition shortPose :: pose where
  "shortPose = \<lparr> kp = Some [[0, 0, 0, 1], [3, 4, 0, 1]] \<rparr>"

definition longPose :: pose where
  "longPose = \<lparr> kp = Some [[0, 0, 0, 1], [0, 0, 0, 1], [0, 0, 0, 1]] \<rparr>"

definition sampleTimeline :: "frame list" where
  "sampleTimeline =
     [\<lparr> kp = None, t = 0, ok = False \<rparr>,
      \<lparr> kp = None, t = 1, ok = False \<rparr>,
      \<lparr> kp = None, t = 2, ok = False \<rparr>]"

text \<open>
  A session starts from scores at zero. Three responses and a live pose with
  one landmark, for the runs of the two components.
\<close>

definition sessionStart :: "'a scorer_scheme \<Rightarrow> bool" where
  "sessionStart st \<longleftrightarrow> totalScore st = 0 \<and> frameCount st = 0 \<and> totalScoreRef st = 0"

definition r10 :: response where
  "r10 = \<lparr> points_earned = 10, similarity = 10, message = ''Keep going'' \<rparr>"

definition r30 :: response where
  "r30 = \<lparr> points_earned = 30, similarity = 30, message = ''Good'' \<rparr>"

definition r50 :: response where
  "r50 = \<lparr> points_earned = 50, similarity = 50, message = ''Great'' \<rparr>"

definition livePose :: pose where
  "livePose = \<lparr> kp = Some [[1/2, 1/2, 0, 1]] \<rparr>"

text \<open>
  The component is stopped when the game is not started and no timer is set.
  The traces below keep it stopped, or keep the session active; \<open>delivered\<close>
  lists the responses of a trace that found a request waiting for them.
\<close>

definition stopped :: "component \<Rightarrow> bool" where
  "stopped st \<longleftrightarrow> \<not> isGameStarted st \<and> \<not> intervalRef st \<and> \<not> isGameStartedRef st"

definition scoresZero :: "'a scorer_scheme \<Rightarrow> bool" where
  "scoresZero st \<longleftrightarrow>
     totalScore st = 0 \<and> currentPoints st = 0 \<and> accuracy st = 0 \<and> frameCount st = 0"

fun keepsStopped :: "event \<Rightarrow> bool" where
  "keepsStopped (Render g p cb) = (\<not> g)"
| "keepsStopped e = True"

fun staysActive :: "event \<Rightarrow> bool" where
  "staysActive (Render g p cb) = g"
| "staysActive e = True"

fun delivered :: "event list \<Rightarrow> component \<Rightarrow> response list" where
  "delivered [] st = []"
| "delivered (Response r # es) st =
     (if inFlight st = 0 then delivered es (step (Response r) st)
      else r # delivered es (step (Response r) st))"
| "delivered (e # es) st = delivered es (step e st)"

text \<open>
  Three traces: a response that arrives after the game has stopped; two
  responses in one session; two responses with a stop and a start in between.
\<close>

definition lateResponseTrace :: "event list" where
  "lateResponseTrace = [Tick, Render False (Some livePose) (Some 0), Response r50]"

definition twoResponsesTrace :: "event list" where
  "twoResponsesTrace = [Tick, Response r10, Tick, Response r30]"

definition restartTrace :: "event list" where
  "restartTrace =
     [Tick, Response r10,
      Render False (Some livePose) (Some 0), Render True (Some livePose) (Some 0),
      Tick, Response r30]"

text \<open>
  Three timelines for the comparator: one record; two records, the first with
  all four angles at 0; two records with non-zero angles.
\<close>

definition oneRecordTimeline :: timeline where
  "oneRecordTimeline =
     [\<lparr> ar_t = 0, elbow_L = Some 1, elbow_R = Some 1, knee_L = Some 2, knee_R = Some 2 \<rparr>]"

definition zeroStartTimeline :: timeline where
  "zeroStartTimeline =
     [\<lparr> ar_t = 0, elbow_L = Some 0, elbow_R = Some 0, knee_L = Some 0, knee_R = Some 0 \<rparr>,
      \<lparr> ar_t = 1, elbow_L = Some 1, elbow_R = Some 1, knee_L = Some 1, knee_R = Some 1 \<rparr>]"

definition bendTimeline :: timeline where
  "bendTimeline =
     [\<lparr> ar_t = 0, elbow_L = Some 1, elbow_R = Some 1, knee_L = Some 3, knee_R = Some 3 \<rparr>,
      \<lparr> ar_t = 1, elbow_L = Some 3, elbow_R = Some 3, knee_L = Some 1, knee_R = Some 1 \<rparr>]"




text \<open>
  The mounted instance, if there is one, belongs to a started game and has its
  timer set.
\<close>

definition startedInstance :: "app \<Rightarrow> bool" where
  "startedInstance a =
     (case scorerInstance a of
        None \<Rightarrow> True
      | Some c \<Rightarrow> isGameStarted c \<and> isGameStartedRef c \<and> intervalRef c)"

section \<open>Properties of findPoseForTime\<close>

lemma nearestLoop_spec:
  assumes "m = \<bar>t c - q\<bar>"
  shows "\<exists>c' m'. nearestLoop q xs (c, m) = (c', m') \<and> m' = \<bar>t c' - q\<bar> \<and> m' \<le> m \<and>
           (\<forall>p \<in> set xs. m' \<le> \<bar>t p - q\<bar>) \<and>
           ((c' = c \<and> (\<forall>p \<in> set xs. \<not> \<bar>t p - q\<bar> < m)) \<or>
            (\<exists>k < length xs. c' = xs ! k \<and> \<bar>t (xs ! k) - q\<bar> < m \<and>
               (\<forall>j < k. \<bar>t (xs ! k) - q\<bar> < \<bar>t (xs ! j) - q\<bar>)))"
  using assms
proof (induction xs arbitrary: c m)
  case Nil
  then show ?case by simp
next
  case (Cons p ps)
  show ?case
  proof (cases "\<bar>t p - q\<bar> < m")
    case True
    from Cons.IH [of "\<bar>t p - q\<bar>" p]
    obtain c' m' where r: "nearestLoop q ps (p, \<bar>t p - q\<bar>) = (c', m')"
      and m': "m' = \<bar>t c' - q\<bar>" and le: "m' \<le> \<bar>t p - q\<bar>"
      and all: "\<forall>x \<in> set ps. m' \<le> \<bar>t x - q\<bar>"
      and alt: "(c' = p \<and> (\<forall>x \<in> set ps. \<not> \<bar>t x - q\<bar> < \<bar>t p - q\<bar>)) \<or>
            (\<exists>k < length ps. c' = ps ! k \<and> \<bar>t (ps ! k) - q\<bar> < \<bar>t p - q\<bar> \<and>
               (\<forall>j < k. \<bar>t (ps ! k) - q\<bar> < \<bar>t (ps ! j) - q\<bar>))"
      by blast
    have run: "nearestLoop q (p # ps) (c, m) = (c', m')"
      using True r by simp
    have second: "\<exists>k < length (p # ps). c' = (p # ps) ! k \<and> \<bar>t ((p # ps) ! k) - q\<bar> < m \<and>
               (\<forall>j < k. \<bar>t ((p # ps) ! k) - q\<bar> < \<bar>t ((p # ps) ! j) - q\<bar>)"
      using alt
    proof
      assume "c' = p \<and> (\<forall>x \<in> set ps. \<not> \<bar>t x - q\<bar> < \<bar>t p - q\<bar>)"
      then have "c' = (p # ps) ! 0 \<and> \<bar>t ((p # ps) ! 0) - q\<bar> < m" using True by simp
      then show ?thesis by (intro exI [of _ 0]) simp
    next
      assume "\<exists>k < length ps. c' = ps ! k \<and> \<bar>t (ps ! k) - q\<bar> < \<bar>t p - q\<bar> \<and>
               (\<forall>j < k. \<bar>t (ps ! k) - q\<bar> < \<bar>t (ps ! j) - q\<bar>)"
      then obtain k where k: "k < length ps" "c' = ps ! k" "\<bar>t (ps ! k) - q\<bar> < \<bar>t p - q\<bar>"
        "\<forall>j < k. \<bar>t (ps ! k) - q\<bar> < \<bar>t (ps ! j) - q\<bar>" by blast
      have "\<forall>j < Suc k. \<bar>t ((p # ps) ! Suc k) - q\<bar> < \<bar>t ((p # ps) ! j) - q\<bar>"
      proof (intro allI impI)
        fix j assume "j < Suc k"
        then show "\<bar>t ((p # ps) ! Suc k) - q\<bar> < \<bar>t ((p # ps) ! j) - q\<bar>"
          using k by (cases j) auto
      qed
      moreover have "Suc k < length (p # ps)" "c' = (p # ps) ! Suc k"
        "\<bar>t ((p # ps) ! Suc k) - q\<bar> < m"
        using k True by auto
      ultimately show ?thesis by blast
    qed
    have "m' \<le> m" using le True by linarith
    moreover have "\<forall>x \<in> set (p # ps). m' \<le> \<bar>t x - q\<bar>" using all le by simp
    ultimately show ?thesis using run m' second by blast
  next
    case False
    from Cons.IH [OF Cons.prems]
    obtain c' m' where r: "nearestLoop q ps (c, m) = (c', m')"
      and m': "m' = \<bar>t c' - q\<bar>" and le: "m' \<le> m"
      and all: "\<forall>x \<in> set ps. m' \<le> \<bar>t x - q\<bar>"
      and alt: "(c' = c \<and> (\<forall>x \<in> set ps. \<not> \<bar>t x - q\<bar> < m)) \<or>
            (\<exists>k < length ps. c' = ps ! k \<and> \<bar>t (ps ! k) - q\<bar> < m \<and>
               (\<forall>j < k. \<bar>t (ps ! k) - q\<bar> < \<bar>t (ps ! j) - q\<bar>))"
      by blast
    have run: "nearestLoop q (p # ps) (c, m) = (c', m')"
      using False r by simp
    have third: "(c' = c \<and> (\<forall>x \<in> set (p # ps). \<not> \<bar>t x - q\<bar> < m)) \<or>
            (\<exists>k < length (p # ps). c' = (p # ps) ! k \<and> \<bar>t ((p # ps) ! k) - q\<bar> < m \<and>
               (\<forall>j < k. \<bar>t ((p # ps) ! k) - q\<bar> < \<bar>t ((p # ps) ! j) - q\<bar>))"
      using alt
    proof
      assume "c' = c \<and> (\<forall>x \<in> set ps. \<not> \<bar>t x - q\<bar> < m)"
      then show ?thesis using False by simp
    next
      assume "\<exists>k < length ps. c' = ps ! k \<and> \<bar>t (ps ! k) - q\<bar> < m \<and>
               (\<forall>j < k. \<bar>t (ps ! k) - q\<bar> < \<bar>t (ps ! j) - q\<bar>)"
      then obtain k where k: "k < length ps" "c' = ps ! k" "\<bar>t (ps ! k) - q\<bar> < m"
        "\<forall>j < k. \<bar>t (ps ! k) - q\<bar> < \<bar>t (ps ! j) - q\<bar>" by blast
      have "\<forall>j < Suc k. \<bar>t ((p # ps) ! Suc k) - q\<bar> < \<bar>t ((p # ps) ! j) - q\<bar>"
      proof (intro allI impI)
        fix j assume "j < Suc k"
        then show "\<bar>t ((p # ps) ! Suc k) - q\<bar> < \<bar>t ((p # ps) ! j) - q\<bar>"
          using k False by (cases j) auto
      qed
      moreover have "Suc k < length (p # ps)" "c' = (p # ps) ! Suc k"
        "\<bar>t ((p # ps) ! Suc k) - q\<bar> < m"
        using k by auto
      ultimately show ?thesis by blast
    qed
    have "\<forall>x \<in> set (p # ps). m' \<le> \<bar>t x - q\<bar>" using all le False by auto
    then show ?thesis using run m' le third by blast
  qed
qed

lemma findPoseForTime_index:
  assumes "ps \<noteq> []"
  shows "\<exists>i < length ps. findPoseForTime (Some ps) q = Some (ps ! i) \<and>
           (\<forall>p \<in> set ps. \<bar>t (ps ! i) - q\<bar> \<le> \<bar>t p - q\<bar>) \<and>
           (\<forall>j < i. \<bar>t (ps ! i) - q\<bar> < \<bar>t (ps ! j) - q\<bar>)"
proof -
  from nearestLoop_spec [of "\<bar>t (ps ! 0) - q\<bar>" "ps ! 0" q ps]
  obtain c' m' where r: "nearestLoop q ps (ps ! 0, \<bar>t (ps ! 0) - q\<bar>) = (c', m')"
    and m': "m' = \<bar>t c' - q\<bar>"
    and all: "\<forall>p \<in> set ps. m' \<le> \<bar>t p - q\<bar>"
    and alt: "(c' = ps ! 0 \<and> (\<forall>p \<in> set ps. \<not> \<bar>t p - q\<bar> < \<bar>t (ps ! 0) - q\<bar>)) \<or>
            (\<exists>k < length ps. c' = ps ! k \<and> \<bar>t (ps ! k) - q\<bar> < \<bar>t (ps ! 0) - q\<bar> \<and>
               (\<forall>j < k. \<bar>t (ps ! k) - q\<bar> < \<bar>t (ps ! j) - q\<bar>))"
    by blast
  have res: "findPoseForTime (Some ps) q = Some c'"
    using assms r by (simp add: findPoseForTime_def)
  from alt show ?thesis
  proof
    assume "c' = ps ! 0 \<and> (\<forall>p \<in> set ps. \<not> \<bar>t p - q\<bar> < \<bar>t (ps ! 0) - q\<bar>)"
    then have "0 < length ps \<and> findPoseForTime (Some ps) q = Some (ps ! 0) \<and>
           (\<forall>p \<in> set ps. \<bar>t (ps ! 0) - q\<bar> \<le> \<bar>t p - q\<bar>) \<and>
           (\<forall>j < 0. \<bar>t (ps ! 0) - q\<bar> < \<bar>t (ps ! j) - q\<bar>)"
      using assms res all m' by auto
    then show ?thesis by blast
  next
    assume "\<exists>k < length ps. c' = ps ! k \<and> \<bar>t (ps ! k) - q\<bar> < \<bar>t (ps ! 0) - q\<bar> \<and>
               (\<forall>j < k. \<bar>t (ps ! k) - q\<bar> < \<bar>t (ps ! j) - q\<bar>)"
    then obtain k where k: "k < length ps" "c' = ps ! k"
      "\<forall>j < k. \<bar>t (ps ! k) - q\<bar> < \<bar>t (ps ! j) - q\<bar>" by blast
    then show ?thesis using res all m' by blast
  qed
qed

text \<open>
  C1. For a non-empty timeline the lookup returns a record of the timeline
  whose timestamp is at least as close to the query time as that of every
  record, the earliest one among those tied (every record before it is
  strictly farther); it returns null exactly when the timeline is absent or
  empty.
\<close>

theorem findPoseForTime_nearest:
  "(findPoseForTime pd q = None \<longleftrightarrow> pd = None \<or> pd = Some []) \<and>
   (\<forall>ps. pd = Some ps \<and> ps \<noteq> [] \<longrightarrow>
      (\<exists>i < length ps. findPoseForTime pd q = Some (ps ! i) \<and>
           (\<forall>p \<in> set ps. \<bar>t (ps ! i) - q\<bar> \<le> \<bar>t p - q\<bar>) \<and>
           (\<forall>j < i. \<bar>t (ps ! i) - q\<bar> < \<bar>t (ps ! j) - q\<bar>)))"
proof
  show "findPoseForTime pd q = None \<longleftrightarrow> pd = None \<or> pd = Some []"
    by (cases pd) (auto simp: findPoseForTime_def)
next
  show "\<forall>ps. pd = Some ps \<and> ps \<noteq> [] \<longrightarrow>
      (\<exists>i < length ps. findPoseForTime pd q = Some (ps ! i) \<and>
           (\<forall>p \<in> set ps. \<bar>t (ps ! i) - q\<bar> \<le> \<bar>t p - q\<bar>) \<and>
           (\<forall>j < i. \<bar>t (ps ! i) - q\<bar> < \<bar>t (ps ! j) - q\<bar>))"
    using findPoseForTime_index by blast
qed

text \<open>
  On the three records at times 0, 1 and 2 and the query time 1.5, the records
  at 1 and 2 are tied; the loop keeps the earlier one.
\<close>

lemma findPoseForTime_sample_tie:
  "findPoseForTime (Some sampleTimeline) (3/2) = Some \<lparr> kp = None, t = 1, ok = False \<rparr>"
  by (simp add: findPoseForTime_def sampleTimeline_def)

theorem findPoseForTime_nearest_witness:
  "Some sampleTimeline = Some sampleTimeline \<and> sampleTimeline \<noteq> [] \<and>
   findPoseForTime (Some sampleTimeline) (3/2) = Some (sampleTimeline ! 1) \<and>
   (\<exists>i < length sampleTimeline.
      findPoseForTime (Some sampleTimeline) (3/2) = Some (sampleTimeline ! i) \<and>
      (\<forall>p \<in> set sampleTimeline. \<bar>t (sampleTimeline ! i) - 3/2\<bar> \<le> \<bar>t p - 3/2\<bar>) \<and>
      (\<forall>j < i. \<bar>t (sampleTimeline ! i) - 3/2\<bar> < \<bar>t (sampleTimeline ! j) - 3/2\<bar>))"
proof -
  have h: "Some sampleTimeline = Some sampleTimeline \<and> sampleTimeline \<noteq> []"
    by (simp add: sampleTimeline_def)
  have e: "findPoseForTime (Some sampleTimeline) (3/2) = Some (sampleTimeline ! 1)"
    by (simp add: findPoseForTime_sample_tie) (simp add: sampleTimeline_def)
  from findPoseForTime_nearest [of "Some sampleTimeline" "3/2"] h e show ?thesis
    by blast
qed

section \<open>Properties of calculatePoseDifferences\<close>

text \<open>
  Inside the loop both indices are in range, so the body never raises, and the
  loop is a filter followed by a map.
\<close>

lemma diffBody_in_range:
  assumes "i < length ckp" "i < length rkp"
  shows "diffBody ckp rkp i acc =
    Inr (if bothVisible ckp rkp i then acc @ [mkDifference i (ckp ! i) (rkp ! i)] else acc)"
  using assms by (simp add: diffBody_def elemAt_def bothVisible_def)

lemma diffLoop_closed:
  assumes "\<forall>i \<in> set is. i < length ckp \<and> i < length rkp"
  shows "diffLoop ckp rkp is acc =
    Inr (acc @ map (\<lambda>i. mkDifference i (ckp ! i) (rkp ! i)) (filter (bothVisible ckp rkp) is))"
  using assms
proof (induction "is" arbitrary: acc)
  case Nil
  then show ?case by simp
next
  case (Cons i "is")
  then show ?case by (simp add: diffBody_in_range)
qed

lemma calculatePoseDifferences_closed:
  assumes "kpOf current = Some ckp" "kpOf reference = Some rkp"
  shows "calculatePoseDifferences current reference =
    Inr (map (\<lambda>i. mkDifference i (ckp ! i) (rkp ! i))
          (filter (bothVisible ckp rkp) [0..<min (length ckp) (length rkp)]))"
  using assms diffLoop_closed [of "[0..<min (length ckp) (length rkp)]" ckp rkp "[]"]
  by (simp add: calculatePoseDifferences_def)

lemma calculatePoseDifferences_missing:
  assumes "kpOf current = None \<or> kpOf reference = None"
  shows "calculatePoseDifferences current reference = Inr []"
  using assms by (auto simp: calculatePoseDifferences_def split: option.splits)

text \<open>
  C10. calculatePoseDifferences returns a list for every pair of poses, whatever
  the lengths of their landmark arrays and also when a pose or its array is
  missing: no landmark is read out of range (no TypeError), and every entry's
  jointIndex is below the smaller of the two lengths.
\<close>

theorem calculatePoseDifferences_total_in_bounds:
  "\<exists>ds. calculatePoseDifferences current reference = Inr ds \<and>
     (\<forall>d \<in> set ds. jointIndex d < min (kpLength current) (kpLength reference))"
proof (cases "kpOf current")
  case None
  then show ?thesis by (simp add: calculatePoseDifferences_missing)
next
  case c: (Some ckp)
  show ?thesis
  proof (cases "kpOf reference")
    case None
    then show ?thesis by (simp add: calculatePoseDifferences_missing)
  next
    case r: (Some rkp)
    show ?thesis
      using c r by (auto simp: calculatePoseDifferences_closed kpLength_def mkDifference_def Let_def)
  qed
qed

text \<open>Evaluations on the concrete poses.\<close>

lemma kpOf_noseOnly: "kpOf (Some noseOnlyPose) = Some ([1/2, 1/2, 0, 9/10] # replicate 32 [0, 0, 0, 0])"
  by (simp add: kpOf_def noseOnlyPose_def)

lemma kpOf_hidden: "kpOf (Some hiddenPose) = Some (replicate 33 [0, 0, 0, 0])"
  by (simp add: kpOf_def hiddenPose_def)

lemma keyJointIndices_eq: "keyJointIndices = [11,12,13,14,15,16,23,24,25,26,27,28]"
  by (simp add: keyJointIndices_def criticalJoints_def)

lemma keyJointsHidden_noseOnly: "keyJointsHidden (Some noseOnlyPose)"
  by (simp add: keyJointsHidden_def keyJointIndices_eq hiddenAt_def kpAt_def kpOf_noseOnly
      elemAt_def chan_def js_gt_def)

lemma bothVisible_noseOnly:
  "i < 33 \<Longrightarrow> bothVisible ([1/2, 1/2, 0, 9/10] # replicate 32 [0, 0, 0, 0])
       ([1/2, 1/2, 0, 9/10] # replicate 32 [0, 0, 0, 0]) i \<longleftrightarrow> i = 0"
  by (cases i) (simp_all add: bothVisible_def chan_def js_gt_def)

lemma filter_noseOnly:
  "filter (bothVisible ([1/2, 1/2, 0, 9/10] # replicate 32 [0, 0, 0, 0])
       ([1/2, 1/2, 0, 9/10] # replicate 32 [0, 0, 0, 0])) [0..<33] = [0]"
proof -
  let ?k = "[1/2, 1/2, 0, 9/10] # replicate 32 [0::real, 0, 0, 0]"
  have "filter (bothVisible ?k ?k) [0..<33] = filter (\<lambda>i. i = 0) [0..<33]"
    by (rule filter_cong) (simp_all add: bothVisible_noseOnly)
  also have "\<dots> = [0]"
    by (simp add: upt_conv_Cons [of 0 33] filter_empty_conv)
  finally show ?thesis .
qed

lemma differences_noseOnly:
  "calculatePoseDifferences (Some noseOnlyPose) (Some noseOnlyPose) =
     Inr [\<lparr> jointIndex = 0, distance = Some 0, severity = low,
            currentPosition = [Some (1/2), Some (1/2)],
            referencePosition = [Some (1/2), Some (1/2)] \<rparr>]"
  by (simp add: calculatePoseDifferences_closed [OF kpOf_noseOnly kpOf_noseOnly] filter_noseOnly
      mkDifference_def euclid2d_def chan_def severityOf_def js_gt_def)

lemma differences_short_long:
  "calculatePoseDifferences (Some shortPose) (Some longPose) =
     Inr [\<lparr> jointIndex = 0, distance = Some 0, severity = low,
            currentPosition = [Some 0, Some 0], referencePosition = [Some 0, Some 0] \<rparr>,
          \<lparr> jointIndex = 1, distance = Some 5, severity = high,
            currentPosition = [Some 3, Some 4], referencePosition = [Some 0, Some 0] \<rparr>]"
proof -
  have s: "sqrt 25 = 5" by (rule real_sqrt_unique) simp_all
  have c: "kpOf (Some shortPose) = Some [[0, 0, 0, 1], [3, 4, 0, 1]]"
    by (simp add: kpOf_def shortPose_def)
  have r: "kpOf (Some longPose) = Some [[0, 0, 0, 1], [0, 0, 0, 1], [0, 0, 0, 1]]"
    by (simp add: kpOf_def longPose_def)
  have u: "[0..<2] = [0, 1]" by (simp add: upt_conv_Cons)
  show ?thesis
    by (simp add: calculatePoseDifferences_closed [OF c r] u bothVisible_def
        mkDifference_def Let_def euclid2d_def chan_def severityOf_def js_gt_def s)
qed

theorem calculatePoseDifferences_total_in_bounds_witness:
  "(\<exists>ds. calculatePoseDifferences (Some shortPose) (Some longPose) = Inr ds \<and> ds \<noteq> [] \<and>
     (\<forall>d \<in> set ds. jointIndex d < min (kpLength (Some shortPose)) (kpLength (Some longPose)))) \<and>
   kpLength (Some shortPose) = 2 \<and> kpLength (Some longPose) = 3"
proof -
  have "kpLength (Some shortPose) = 2" "kpLength (Some longPose) = 3"
    by (simp_all add: kpLength_def kpOf_def shortPose_def longPose_def)
  then show ?thesis
    using calculatePoseDifferences_total_in_bounds [of "Some shortPose" "Some longPose"]
      differences_short_long by auto
qed

lemma euclid2d_formula:
  assumes "1 < length a" "1 < length b"
  shows "euclid2d a b = Some (sqrt ((a ! 0 - b ! 0)\<^sup>2 + (a ! 1 - b ! 1)\<^sup>2))"
proof -
  have "0 < length a" "0 < length b" using assms by linarith+
  then show ?thesis using assms by (simp add: euclid2d_def chan_def)
qed

lemma js_gt_chan_length: "js_gt (chan lm 3) c \<Longrightarrow> 1 < length lm"
  by (simp add: js_gt_def chan_def split: if_splits)

text \<open>
  C6, as stated, fails: calculatePoseDifferences walks over every landmark, not
  only the key joints. With every key joint hidden and the nose visible in both
  poses, the list of differences has the entry of the nose.
\<close>

theorem hidden_key_joints_counterexample:
  "keyJointsHidden (Some noseOnlyPose) \<and>
   calculatePoseDifferences (Some noseOnlyPose) (Some noseOnlyPose) \<noteq> Inr []"
  by (simp add: keyJointsHidden_noseOnly differences_noseOnly)

text \<open>
  C6, amended. When every key joint of the live pose, or of the reference pose,
  has visibility at or below 0.5, calculatePoseDifferences returns a list with
  no entry for a key joint, each entry carrying a distance that is a
  non-negative number; when every landmark of one of the poses is hidden the
  list is empty. No error is raised.
\<close>

theorem hidden_key_joints_no_contribution:
  assumes "keyJointsHidden current \<or> keyJointsHidden reference"
  shows "\<exists>ds. calculatePoseDifferences current reference = Inr ds \<and>
           (\<forall>d \<in> set ds. jointIndex d \<notin> set keyJointIndices \<and>
                          (\<exists>x. distance d = Some x \<and> 0 \<le> x)) \<and>
           (allJointsHidden current \<or> allJointsHidden reference \<longrightarrow> ds = [])"
proof (cases "kpOf current")
  case None
  then show ?thesis by (simp add: calculatePoseDifferences_missing)
next
  case c: (Some ckp)
  show ?thesis
  proof (cases "kpOf reference")
    case None
    then show ?thesis by (simp add: calculatePoseDifferences_missing)
  next
    case r: (Some rkp)
    let ?n = "min (length ckp) (length rkp)"
    let ?ds = "map (\<lambda>i. mkDifference i (ckp ! i) (rkp ! i)) (filter (bothVisible ckp rkp) [0..<?n])"
    have res: "calculatePoseDifferences current reference = Inr ?ds"
      by (rule calculatePoseDifferences_closed [OF c r])
    have key: "\<not> bothVisible ckp rkp i" if "i \<in> set keyJointIndices" "i < ?n" for i
    proof -
      from assms have "hiddenAt current i \<or> hiddenAt reference i"
        using that(1) by (auto simp: keyJointsHidden_def list_all_iff)
      then show ?thesis
        using that(2) c r by (auto simp: hiddenAt_def kpAt_def elemAt_def bothVisible_def)
    qed
    have p1: "\<forall>d \<in> set ?ds. jointIndex d \<notin> set keyJointIndices \<and> (\<exists>x. distance d = Some x \<and> 0 \<le> x)"
    proof
      fix d assume "d \<in> set ?ds"
      then obtain i where i: "i < ?n" "bothVisible ckp rkp i" "d = mkDifference i (ckp ! i) (rkp ! i)"
        by auto
      have len: "1 < length (ckp ! i)" "1 < length (rkp ! i)"
        using i(2) js_gt_chan_length [of "ckp ! i" "1/2"] js_gt_chan_length [of "rkp ! i" "1/2"]
        by (simp_all add: bothVisible_def)
      have "jointIndex d = i" using i(3) by (simp add: mkDifference_def Let_def)
      moreover have "distance d = euclid2d (ckp ! i) (rkp ! i)"
        using i(3) by (simp add: mkDifference_def Let_def)
      ultimately show "jointIndex d \<notin> set keyJointIndices \<and> (\<exists>x. distance d = Some x \<and> 0 \<le> x)"
        using key i(1,2) euclid2d_formula [OF len] by auto
    qed
    have p2: "allJointsHidden current \<or> allJointsHidden reference \<longrightarrow> ?ds = []"
    proof
      assume h: "allJointsHidden current \<or> allJointsHidden reference"
      have "\<not> bothVisible ckp rkp i" if "i < ?n" for i
      proof -
        from h that have "hiddenAt current i \<or> hiddenAt reference i"
          using c r by (auto simp: allJointsHidden_def list_all_iff kpLength_def)
        then show ?thesis
          using that c r by (auto simp: hiddenAt_def kpAt_def elemAt_def bothVisible_def)
      qed
      then show "?ds = []" by (simp add: filter_empty_conv)
    qed
    show ?thesis using res p1 p2 by blast
  qed
qed

theorem hidden_key_joints_no_contribution_witness:
  "keyJointsHidden (Some noseOnlyPose) \<and>
   (\<exists>ds. calculatePoseDifferences (Some noseOnlyPose) (Some noseOnlyPose) = Inr ds \<and>
      ds \<noteq> [] \<and>
      (\<forall>d \<in> set ds. jointIndex d \<notin> set keyJointIndices \<and> (\<exists>x. distance d = Some x \<and> 0 \<le> x))) \<and>
   allJointsHidden (Some hiddenPose) \<and>
   calculatePoseDifferences (Some hiddenPose) (Some noseOnlyPose) = Inr []"
proof -
  have h1: "keyJointsHidden (Some noseOnlyPose) \<or> keyJointsHidden (Some noseOnlyPose)"
    by (simp add: keyJointsHidden_noseOnly)
  have a: "allJointsHidden (Some hiddenPose)"
    by (auto simp: allJointsHidden_def list_all_iff kpLength_def kpOf_hidden hiddenAt_def kpAt_def
        elemAt_def chan_def js_gt_def)
  have k: "keyJointsHidden (Some hiddenPose)"
    by (simp add: keyJointsHidden_def keyJointIndices_eq hiddenAt_def kpAt_def kpOf_hidden
      elemAt_def chan_def js_gt_def)
  from k have h2: "keyJointsHidden (Some hiddenPose) \<or> keyJointsHidden (Some noseOnlyPose)" by simp
  show ?thesis
    using hidden_key_joints_no_contribution [OF h1]
      hidden_key_joints_no_contribution [OF h2] a differences_noseOnly keyJointsHidden_noseOnly
    by auto
qed

section \<open>Properties of calculateJointAccuracyScores\<close>

lemma foldl_scoreJoint:
  assumes "distinct (map fst js)"
  shows "foldl (scoreJoint c r) m js name =
    (case map_of js name of
       None \<Rightarrow> m name
     | Some idx \<Rightarrow>
        (case kpAt c idx of None \<Rightarrow> m name
         | Some cp \<Rightarrow> (case kpAt r idx of None \<Rightarrow> m name | Some rp \<Rightarrow> Some (mkJointScore cp rp))))"
  using assms
proof (induction js arbitrary: m)
  case Nil
  then show ?case by simp
next
  case (Cons j js)
  obtain n idx where j: "j = (n, idx)" by (cases j)
  have notin: "n \<notin> fst ` set js" and d: "distinct (map fst js)" using Cons.prems j by auto
  have none: "map_of js n = None" using notin by (simp add: map_of_eq_None_iff)
  show ?case
    using Cons.IH [OF d] j none
    by (auto simp: scoreJoint_def split: option.splits)
qed

lemma distinct_criticalJoints: "distinct (map fst criticalJoints)"
  by (simp add: criticalJoints_def)

lemma calculateJointAccuracyScores_closed:
  "calculateJointAccuracyScores c r name =
    (case map_of criticalJoints name of
       None \<Rightarrow> None
     | Some idx \<Rightarrow>
        (case kpAt c idx of None \<Rightarrow> None
         | Some cp \<Rightarrow> (case kpAt r idx of None \<Rightarrow> None | Some rp \<Rightarrow> Some (mkJointScore cp rp))))"
  unfolding calculateJointAccuracyScores_def
  by (simp add: foldl_scoreJoint [OF distinct_criticalJoints])

lemma set_criticalJoints_map_of:
  "(name, idx) \<in> set criticalJoints \<Longrightarrow> map_of criticalJoints name = Some idx"
  using distinct_criticalJoints by simp

lemma mkJointScore_fields:
  "joint_distance (mkJointScore a b) = euclid2d a b"
  "joint_accuracy (mkJointScore a b) = map_option (\<lambda>d. Math_round (accuracyOf d)) (euclid2d a b)"
  by (simp_all add: mkJointScore_def Let_def option.map_comp comp_def)

text \<open>
  C2. The accuracy value of a joint at distance \<open>d\<close>, before and after
  rounding, does not increase with \<open>d\<close>, is 100 at distance 0, lies between 0
  and 100 for every \<open>d \<ge> 0\<close>, and is 0 from distance 0.1 on.
\<close>

theorem accuracy_monotone_bounded:
  "(0 \<le> d1 \<and> d1 \<le> d2 \<longrightarrow>
      accuracyOf d2 \<le> accuracyOf d1 \<and> Math_round (accuracyOf d2) \<le> Math_round (accuracyOf d1)) \<and>
   accuracyOf 0 = 100 \<and> Math_round (accuracyOf 0) = 100 \<and>
   (0 \<le> d \<longrightarrow> 0 \<le> accuracyOf d \<and> accuracyOf d \<le> 100 \<and>
      0 \<le> Math_round (accuracyOf d) \<and> Math_round (accuracyOf d) \<le> 100) \<and>
   (1/10 \<le> d \<longrightarrow> accuracyOf d = 0 \<and> Math_round (accuracyOf d) = 0)"
proof -
  have mono: "accuracyOf d2 \<le> accuracyOf d1" if "d1 \<le> d2" for d1 d2
    using that by (simp add: accuracyOf_def max_def)
  have rmono: "Math_round x \<le> Math_round y" if "x \<le> y" for x y
    using that by (simp add: Math_round_def floor_mono)
  have z: "accuracyOf 0 = 100" by (simp add: accuracyOf_def)
  have r100: "Math_round 100 = 100" unfolding Math_round_def by linarith
  have r0: "Math_round 0 = 0" unfolding Math_round_def by linarith
  have lo: "0 \<le> accuracyOf d" by (simp add: accuracyOf_def)
  have hi: "accuracyOf d \<le> 100" if "0 \<le> d" using that by (simp add: accuracyOf_def)
  have far: "accuracyOf d = 0" if "1/10 \<le> d" using that by (simp add: accuracyOf_def max_def)
  show ?thesis
    using mono rmono z r100 r0 lo hi far
    by (metis)
qed

theorem accuracy_monotone_bounded_witness:
  "(0::real) \<le> 1/50 \<and> (1/50::real) \<le> 1/20 \<and>
   accuracyOf (1/20) \<le> accuracyOf (1/50) \<and>
   Math_round (accuracyOf (1/20)) \<le> Math_round (accuracyOf (1/50)) \<and>
   accuracyOf (1/50) = 80 \<and> accuracyOf (1/20) = 50 \<and>
   0 \<le> accuracyOf (1/5) \<and> (1/10::real) \<le> 1/5 \<and> accuracyOf (1/5) = 0 \<and>
   Math_round (accuracyOf (1/5)) = 0"
proof -
  have h: "(0::real) \<le> 1/50 \<and> (1/50::real) \<le> 1/20" "(0::real) \<le> 1/5" "(1/10::real) \<le> 1/5"
    by simp_all
  have v: "accuracyOf (1/50) = 80" "accuracyOf (1/20) = 50"
    by (simp_all add: accuracyOf_def)
  from accuracy_monotone_bounded [of "1/50" "1/20" "1/5"] h v show ?thesis
    by blast
qed

text \<open>
  C5. The scored landmark indices are the twelve indices 11 to 16 and 23 to 28.
  Every key of the result is one of the twelve joint names, a joint is scored
  exactly when both poses have its landmark, and the result does not depend on
  any other landmark: two pairs of poses that agree on the twelve indices get
  the same scores.
\<close>

theorem critical_joint_indices:
  "map snd criticalJoints = [11, 12, 13, 14, 15, 16, 23, 24, 25, 26, 27, 28] \<and>
   dom (calculateJointAccuracyScores c r) \<subseteq> fst ` set criticalJoints \<and>
   ((\<forall>i \<in> set (map snd criticalJoints). kpAt c i = kpAt c' i \<and> kpAt r i = kpAt r' i) \<longrightarrow>
      calculateJointAccuracyScores c r = calculateJointAccuracyScores c' r') \<and>
   (\<forall>(name, i) \<in> set criticalJoints.
      calculateJointAccuracyScores c r name \<noteq> None \<longleftrightarrow> kpAt c i \<noteq> None \<and> kpAt r i \<noteq> None)"
proof (intro conjI)
  show "map snd criticalJoints = [11, 12, 13, 14, 15, 16, 23, 24, 25, 26, 27, 28]"
    by (simp add: criticalJoints_def)
next
  show "dom (calculateJointAccuracyScores c r) \<subseteq> fst ` set criticalJoints"
  proof
    fix name assume "name \<in> dom (calculateJointAccuracyScores c r)"
    then have "map_of criticalJoints name \<noteq> None"
      by (auto simp: calculateJointAccuracyScores_closed split: option.splits)
    then show "name \<in> fst ` set criticalJoints"
      by (simp add: map_of_eq_None_iff)
  qed
next
  show "(\<forall>i \<in> set (map snd criticalJoints). kpAt c i = kpAt c' i \<and> kpAt r i = kpAt r' i) \<longrightarrow>
      calculateJointAccuracyScores c r = calculateJointAccuracyScores c' r'"
  proof
    assume agree: "\<forall>i \<in> set (map snd criticalJoints). kpAt c i = kpAt c' i \<and> kpAt r i = kpAt r' i"
    show "calculateJointAccuracyScores c r = calculateJointAccuracyScores c' r'"
    proof
      fix name
      show "calculateJointAccuracyScores c r name = calculateJointAccuracyScores c' r' name"
      proof (cases "map_of criticalJoints name")
        case None
        then show ?thesis by (simp add: calculateJointAccuracyScores_closed)
      next
        case (Some idx)
        then have "(name, idx) \<in> set criticalJoints" by (rule map_of_SomeD)
        then have "idx \<in> set (map snd criticalJoints)" by force
        with agree have "kpAt c idx = kpAt c' idx" "kpAt r idx = kpAt r' idx" by blast+
        with Some show ?thesis
          by (simp add: calculateJointAccuracyScores_closed split: option.splits)
      qed
    qed
  qed
next
  show "\<forall>(name, i) \<in> set criticalJoints.
      calculateJointAccuracyScores c r name \<noteq> None \<longleftrightarrow> kpAt c i \<noteq> None \<and> kpAt r i \<noteq> None"
  proof (clarify)
    fix name i assume "(name, i) \<in> set criticalJoints"
    then have "map_of criticalJoints name = Some i" by (rule set_criticalJoints_map_of)
    then show "calculateJointAccuracyScores c r name \<noteq> None \<longleftrightarrow> kpAt c i \<noteq> None \<and> kpAt r i \<noteq> None"
      by (auto simp: calculateJointAccuracyScores_closed split: option.splits)
  qed
qed

theorem critical_joint_indices_witness:
  "list_all (\<lambda>i. kpAt (Some hiddenPose) i = kpAt (Some noseOnlyPose) i)
      (map snd criticalJoints) \<and>
   kpAt (Some hiddenPose) 0 \<noteq> kpAt (Some noseOnlyPose) 0 \<and>
   calculateJointAccuracyScores (Some hiddenPose) (Some hiddenPose) =
     calculateJointAccuracyScores (Some noseOnlyPose) (Some noseOnlyPose) \<and>
   (''rightAnkle'', 28) \<in> set criticalJoints \<and>
   kpAt (Some hiddenPose) 28 \<noteq> None \<and>
   calculateJointAccuracyScores (Some hiddenPose) (Some hiddenPose) ''rightAnkle'' \<noteq> None"
proof -
  have agree: "\<forall>i \<in> set (map snd criticalJoints).
      kpAt (Some hiddenPose) i = kpAt (Some noseOnlyPose) i \<and>
      kpAt (Some hiddenPose) i = kpAt (Some noseOnlyPose) i"
    by (simp add: criticalJoints_def kpAt_def kpOf_hidden kpOf_noseOnly elemAt_def)
  have diff: "kpAt (Some hiddenPose) 0 \<noteq> kpAt (Some noseOnlyPose) 0"
    by (simp add: kpAt_def kpOf_hidden kpOf_noseOnly elemAt_def)
  have mem: "(''rightAnkle'', 28) \<in> set criticalJoints" by (simp add: criticalJoints_def)
  have pres: "kpAt (Some hiddenPose) 28 \<noteq> None"
    by (simp add: kpAt_def kpOf_hidden elemAt_def)
  note th = critical_joint_indices [of "Some hiddenPose" "Some hiddenPose"
      "Some noseOnlyPose" "Some noseOnlyPose"]
  from th agree have eq: "calculateJointAccuracyScores (Some hiddenPose) (Some hiddenPose) =
     calculateJointAccuracyScores (Some noseOnlyPose) (Some noseOnlyPose)"
    by blast
  from th have "\<forall>(name, i) \<in> set criticalJoints.
      calculateJointAccuracyScores (Some hiddenPose) (Some hiddenPose) name \<noteq> None \<longleftrightarrow>
        kpAt (Some hiddenPose) i \<noteq> None \<and> kpAt (Some hiddenPose) i \<noteq> None"
    by blast
  with mem pres have "calculateJointAccuracyScores (Some hiddenPose) (Some hiddenPose) ''rightAnkle'' \<noteq> None"
    by fast
  moreover have "list_all (\<lambda>i. kpAt (Some hiddenPose) i = kpAt (Some noseOnlyPose) i)
      (map snd criticalJoints)"
    using agree by (simp add: list_all_iff)
  ultimately show ?thesis using diff eq mem pres by blast
qed

text \<open>
  C3, as stated, fails on calculateJointAccuracyScores, which has no
  visibility test: a left shoulder of visibility 0 in both poses is scored.
\<close>

lemma scores_hidden_leftShoulder:
  "calculateJointAccuracyScores (Some hiddenPose) (Some hiddenPose) ''leftShoulder'' =
     Some \<lparr> joint_accuracy = Some 100, joint_distance = Some 0, status = excellent \<rparr>"
proof -
  have m: "map_of criticalJoints ''leftShoulder'' = Some 11"
    by (simp add: criticalJoints_def)
  have r: "Math_round 100 = 100" unfolding Math_round_def by linarith
  show ?thesis
    by (simp add: calculateJointAccuracyScores_closed m kpAt_def kpOf_hidden elemAt_def
        mkJointScore_def Let_def euclid2d_def chan_def accuracyOf_def r statusOf_def js_gt_def)
qed

theorem visibility_threshold_counterexample:
  "hiddenAt (Some hiddenPose) 11 \<and>
   kpAt (Some hiddenPose) 11 = Some [0, 0, 0, 0] \<and>
   calculateJointAccuracyScores (Some hiddenPose) (Some hiddenPose) ''leftShoulder'' =
     Some \<lparr> joint_accuracy = Some 100, joint_distance = Some 0, status = excellent \<rparr>"
  by (simp add: scores_hidden_leftShoulder hiddenAt_def kpAt_def kpOf_hidden elemAt_def
      chan_def js_gt_def)

text \<open>
  C3, amended. Both functions compute the distance of a joint as
  \<open>sqrt ((x_live - x_ref)^2 + (y_live - y_ref)^2)\<close>, from the channels 0 and 1
  alone. calculatePoseDifferences has an entry for an index below both lengths
  exactly when both landmarks have visibility above 0.5.
  calculateJointAccuracyScores scores a key joint exactly when both poses have
  its landmark, whatever the visibility.
\<close>

theorem joint_distance_and_visibility:
  assumes "kpOf current = Some ckp" "kpOf reference = Some rkp"
  shows "(\<exists>ds. calculatePoseDifferences current reference = Inr ds \<and>
     (\<forall>i < min (length ckp) (length rkp).
        (\<exists>d \<in> set ds. jointIndex d = i) \<longleftrightarrow> bothVisible ckp rkp i) \<and>
     (\<forall>d \<in> set ds. distance d =
        Some (sqrt ((ckp ! jointIndex d ! 0 - rkp ! jointIndex d ! 0)\<^sup>2 +
                    (ckp ! jointIndex d ! 1 - rkp ! jointIndex d ! 1)\<^sup>2)))) \<and>
   (\<forall>(name, i) \<in> set criticalJoints.
      if i < length ckp \<and> i < length rkp
      then \<exists>s. calculateJointAccuracyScores current reference name = Some s \<and>
             joint_distance s = euclid2d (ckp ! i) (rkp ! i) \<and>
             (1 < length (ckp ! i) \<and> 1 < length (rkp ! i) \<longrightarrow>
                joint_distance s =
                  Some (sqrt ((ckp ! i ! 0 - rkp ! i ! 0)\<^sup>2 + (ckp ! i ! 1 - rkp ! i ! 1)\<^sup>2)))
      else calculateJointAccuracyScores current reference name = None)"
proof
  let ?n = "min (length ckp) (length rkp)"
  let ?mk = "\<lambda>i. mkDifference i (ckp ! i) (rkp ! i)"
  let ?ds = "map ?mk (filter (bothVisible ckp rkp) [0..<?n])"
  have res: "calculatePoseDifferences current reference = Inr ?ds"
    by (rule calculatePoseDifferences_closed [OF assms])
  have idx: "jointIndex (?mk i) = i" for i by (simp add: mkDifference_def Let_def)
  have a: "\<forall>i < ?n. (\<exists>d \<in> set ?ds. jointIndex d = i) \<longleftrightarrow> bothVisible ckp rkp i"
    by (auto simp: idx)
  have b: "\<forall>d \<in> set ?ds. distance d =
        Some (sqrt ((ckp ! jointIndex d ! 0 - rkp ! jointIndex d ! 0)\<^sup>2 +
                    (ckp ! jointIndex d ! 1 - rkp ! jointIndex d ! 1)\<^sup>2))"
  proof
    fix d assume "d \<in> set ?ds"
    then obtain i where i: "bothVisible ckp rkp i" "d = ?mk i" by auto
    have len: "1 < length (ckp ! i)" "1 < length (rkp ! i)"
      using i(1) js_gt_chan_length [of "ckp ! i" "1/2"] js_gt_chan_length [of "rkp ! i" "1/2"]
      by (simp_all add: bothVisible_def)
    have "distance d = euclid2d (ckp ! i) (rkp ! i)" "jointIndex d = i"
      using i(2) by (simp_all add: mkDifference_def Let_def)
    then show "distance d =
        Some (sqrt ((ckp ! jointIndex d ! 0 - rkp ! jointIndex d ! 0)\<^sup>2 +
                    (ckp ! jointIndex d ! 1 - rkp ! jointIndex d ! 1)\<^sup>2))"
      using euclid2d_formula [OF len] by simp
  qed
  show "\<exists>ds. calculatePoseDifferences current reference = Inr ds \<and>
     (\<forall>i < min (length ckp) (length rkp).
        (\<exists>d \<in> set ds. jointIndex d = i) \<longleftrightarrow> bothVisible ckp rkp i) \<and>
     (\<forall>d \<in> set ds. distance d =
        Some (sqrt ((ckp ! jointIndex d ! 0 - rkp ! jointIndex d ! 0)\<^sup>2 +
                    (ckp ! jointIndex d ! 1 - rkp ! jointIndex d ! 1)\<^sup>2)))"
    using res a b by blast
next
  show "\<forall>(name, i) \<in> set criticalJoints.
      if i < length ckp \<and> i < length rkp
      then \<exists>s. calculateJointAccuracyScores current reference name = Some s \<and>
             joint_distance s = euclid2d (ckp ! i) (rkp ! i) \<and>
             (1 < length (ckp ! i) \<and> 1 < length (rkp ! i) \<longrightarrow>
                joint_distance s =
                  Some (sqrt ((ckp ! i ! 0 - rkp ! i ! 0)\<^sup>2 + (ckp ! i ! 1 - rkp ! i ! 1)\<^sup>2)))
      else calculateJointAccuracyScores current reference name = None"
  proof (clarify)
    fix name i assume "(name, i) \<in> set criticalJoints"
    then have m: "map_of criticalJoints name = Some i" by (rule set_criticalJoints_map_of)
    show "if i < length ckp \<and> i < length rkp
      then \<exists>s. calculateJointAccuracyScores current reference name = Some s \<and>
             joint_distance s = euclid2d (ckp ! i) (rkp ! i) \<and>
             (1 < length (ckp ! i) \<and> 1 < length (rkp ! i) \<longrightarrow>
                joint_distance s =
                  Some (sqrt ((ckp ! i ! 0 - rkp ! i ! 0)\<^sup>2 + (ckp ! i ! 1 - rkp ! i ! 1)\<^sup>2)))
      else calculateJointAccuracyScores current reference name = None"
    proof (cases "i < length ckp \<and> i < length rkp")
      case True
      then have "calculateJointAccuracyScores current reference name =
          Some (mkJointScore (ckp ! i) (rkp ! i))"
        using m assms by (simp add: calculateJointAccuracyScores_closed kpAt_def elemAt_def)
      then show ?thesis
        using True euclid2d_formula [of "ckp ! i" "rkp ! i"] by (simp add: mkJointScore_fields)
    next
      case False
      then have "calculateJointAccuracyScores current reference name = None"
        using m assms
        by (auto simp: calculateJointAccuracyScores_closed kpAt_def elemAt_def split: option.splits)
      then show ?thesis using False by simp
    qed
  qed
qed

theorem joint_distance_and_visibility_witness:
  "kpOf (Some noseOnlyPose) = Some ([1/2, 1/2, 0, 9/10] # replicate 32 [0, 0, 0, 0]) \<and>
   (\<exists>ds. calculatePoseDifferences (Some noseOnlyPose) (Some noseOnlyPose) = Inr ds \<and>
      (\<exists>d \<in> set ds. jointIndex d = 0 \<and> distance d = Some 0) \<and>
      \<not> (\<exists>d \<in> set ds. jointIndex d = 11)) \<and>
   (''leftShoulder'', 11) \<in> set criticalJoints \<and>
   (\<exists>s. calculateJointAccuracyScores (Some noseOnlyPose) (Some noseOnlyPose) ''leftShoulder'' = Some s \<and>
      joint_distance s = Some 0)"
proof -
  let ?K = "[1/2, 1/2, 0, 9/10] # replicate 32 [0::real, 0, 0, 0]"
  note th = joint_distance_and_visibility [OF kpOf_noseOnly kpOf_noseOnly]
  from th obtain ds where ds: "calculatePoseDifferences (Some noseOnlyPose) (Some noseOnlyPose) = Inr ds"
    and vis: "\<forall>i < min (length ?K) (length ?K). (\<exists>d \<in> set ds. jointIndex d = i) \<longleftrightarrow> bothVisible ?K ?K i"
    and dist: "\<forall>d \<in> set ds. distance d =
        Some (sqrt ((?K ! jointIndex d ! 0 - ?K ! jointIndex d ! 0)\<^sup>2 +
                    (?K ! jointIndex d ! 1 - ?K ! jointIndex d ! 1)\<^sup>2))"
    by blast
  have v0: "bothVisible ?K ?K 0" and v11: "\<not> bothVisible ?K ?K 11"
    by (simp_all add: bothVisible_noseOnly)
  have b0: "0 < min (length ?K) (length ?K)" and b11: "11 < min (length ?K) (length ?K)"
    by simp_all
  from vis b0 v0 have "\<exists>d \<in> set ds. jointIndex d = 0" by blast
  then obtain d where d: "d \<in> set ds" "jointIndex d = 0" by blast
  with dist have "distance d = Some 0" by auto
  with d have p1: "\<exists>d \<in> set ds. jointIndex d = 0 \<and> distance d = Some 0" by blast
  from vis b11 v11 have p2: "\<not> (\<exists>d \<in> set ds. jointIndex d = 11)" by blast
  have mem: "(''leftShoulder'', 11) \<in> set criticalJoints" by (simp add: criticalJoints_def)
  from th have "\<forall>(name, i) \<in> set criticalJoints.
      if i < length ?K \<and> i < length ?K
      then \<exists>s. calculateJointAccuracyScores (Some noseOnlyPose) (Some noseOnlyPose) name = Some s \<and>
             joint_distance s = euclid2d (?K ! i) (?K ! i) \<and>
             (1 < length (?K ! i) \<and> 1 < length (?K ! i) \<longrightarrow>
                joint_distance s =
                  Some (sqrt ((?K ! i ! 0 - ?K ! i ! 0)\<^sup>2 + (?K ! i ! 1 - ?K ! i ! 1)\<^sup>2)))
      else calculateJointAccuracyScores (Some noseOnlyPose) (Some noseOnlyPose) name = None"
    by blast
  with mem have "if 11 < length ?K \<and> 11 < length ?K
      then \<exists>s. calculateJointAccuracyScores (Some noseOnlyPose) (Some noseOnlyPose) ''leftShoulder'' = Some s \<and>
             joint_distance s = euclid2d (?K ! 11) (?K ! 11) \<and>
             (1 < length (?K ! 11) \<and> 1 < length (?K ! 11) \<longrightarrow>
                joint_distance s =
                  Some (sqrt ((?K ! 11 ! 0 - ?K ! 11 ! 0)\<^sup>2 + (?K ! 11 ! 1 - ?K ! 11 ! 1)\<^sup>2)))
      else calculateJointAccuracyScores (Some noseOnlyPose) (Some noseOnlyPose) ''leftShoulder'' = None"
    by fast
  then have p3: "\<exists>s. calculateJointAccuracyScores (Some noseOnlyPose) (Some noseOnlyPose) ''leftShoulder'' = Some s \<and>
      joint_distance s = Some 0"
    by (simp add: euclid2d_def chan_def)
  show ?thesis using kpOf_noseOnly ds p1 p2 mem p3 by blast
qed

section \<open>Properties of the first RealtimeScorer\<close>

lemma Math_round_of_int: "Math_round (of_int n) = n"
  unfolding Math_round_def by linarith

lemma Math_round_numeral [simp]: "Math_round (numeral k) = numeral k"
  using Math_round_of_int [of "numeral k"] by simp

lemma scoreResponse_fields:
  "totalScore (scoreResponse r st) = totalScoreRef st + points_earned r"
  "totalScoreRef (scoreResponse r st) = totalScoreRef st + points_earned r"
  "frameCount (scoreResponse r st) = frameCount st + 1"
  "currentPoints (scoreResponse r st) = points_earned r"
  "accuracy (scoreResponse r st) =
     Math_round ((totalScoreRef st + points_earned r) / real (frameCount st + 1))"
  by (simp_all add: scoreResponse_def Let_def)

lemma applyResponses_snoc:
  "applyResponses (rs @ [r]) st = scoreResponse r (applyResponses rs st)"
  by (simp add: applyResponses_def)

lemma applyResponses_totals:
  "totalScoreRef (applyResponses rs st) = totalScoreRef st + sum_list (map points_earned rs) \<and>
   frameCount (applyResponses rs st) = frameCount st + length rs \<and>
   (rs \<noteq> [] \<longrightarrow> totalScore (applyResponses rs st) = totalScoreRef (applyResponses rs st))"
proof (induction rs rule: rev_induct)
  case Nil
  then show ?case by (simp add: applyResponses_def)
next
  case (snoc r rs)
  then show ?case by (simp add: applyResponses_snoc scoreResponse_fields)
qed

lemma sessionStart_initial: "sessionStart initialScorer"
  by (simp add: sessionStart_def initialScorer_def)

lemma sessionStart_reset: "sessionStart (resetScores st)"
  by (simp add: sessionStart_def resetScores_def)

lemma sessionStart_mount: "sessionStart (mount g p cb)"
  by (simp add: sessionStart_def mount_def intervalEffect_def resetScores_def)

text \<open>
  C4. From the start of a session (total score, frame count and the ref at 0),
  after any sequence of scoring responses the total score is the sum of their
  points_earned and the frame count is their number; one more response adds
  exactly its points_earned to the total and 1 to the frame count.
\<close>

theorem scoring_accumulates:
  assumes "sessionStart st"
  shows "totalScore (applyResponses rs st) = sum_list (map points_earned rs) \<and>
         frameCount (applyResponses rs st) = length rs \<and>
         totalScore (scoreResponse r (applyResponses rs st)) =
           totalScore (applyResponses rs st) + points_earned r \<and>
         frameCount (scoreResponse r (applyResponses rs st)) =
           frameCount (applyResponses rs st) + 1"
proof -
  have z: "totalScore st = 0" "frameCount st = 0" "totalScoreRef st = 0"
    using assms by (simp_all add: sessionStart_def)
  have t: "totalScore (applyResponses rs st) = sum_list (map points_earned rs)"
  proof (cases "rs = []")
    case True
    then show ?thesis using z by (simp add: applyResponses_def)
  next
    case False
    then show ?thesis using applyResponses_totals [of rs st] z by simp
  qed
  have r: "totalScoreRef (applyResponses rs st) = sum_list (map points_earned rs)"
    using applyResponses_totals [of rs st] z by simp
  have f: "frameCount (applyResponses rs st) = length rs"
    using applyResponses_totals [of rs st] z by simp
  show ?thesis using t r f by (simp add: scoreResponse_fields)
qed

theorem scoring_accumulates_witness:
  "sessionStart initialScorer \<and>
   totalScore (applyResponses [r10, r30] initialScorer) = 40 \<and>
   frameCount (applyResponses [r10, r30] initialScorer) = 2 \<and>
   totalScore (scoreResponse r10 (applyResponses [r10, r30] initialScorer)) = 50 \<and>
   frameCount (scoreResponse r10 (applyResponses [r10, r30] initialScorer)) = 3"
  using scoring_accumulates [OF sessionStart_initial, of "[r10, r30]" r10] sessionStart_initial
  by (simp add: r10_def r30_def)

text \<open>
  The same on the mounted component: while no render stops the game, the ref
  and the frame count grow by the points and the number of the responses
  delivered, and the total score follows the ref.
\<close>

lemma run_Cons: "run (e # es) st = run es (step e st)"
  by (simp add: run_def)

lemma run_Nil: "run [] st = st"
  by (simp add: run_def)

lemma step_active_totals:
  assumes "staysActive e"
  shows "totalScoreRef (step e st) =
           totalScoreRef st + sum_list (map points_earned (delivered [e] st)) \<and>
         frameCount (step e st) = frameCount st + length (delivered [e] st) \<and>
         (totalScore st = totalScoreRef st \<longrightarrow> totalScore (step e st) = totalScoreRef (step e st))"
  using assms
  by (cases e)
     (auto simp: render_def Let_def intervalEffect_def sendPoseForScoring_def scoreResponse_def)

lemma delivered_Cons: "delivered (e # es) st = delivered [e] st @ delivered es (step e st)"
  by (cases e) auto

lemma active_session_totals:
  assumes "list_all staysActive es"
  shows "totalScoreRef (run es st) =
           totalScoreRef st + sum_list (map points_earned (delivered es st)) \<and>
         frameCount (run es st) = frameCount st + length (delivered es st) \<and>
         (totalScore st = totalScoreRef st \<longrightarrow> totalScore (run es st) = totalScoreRef (run es st))"
  using assms
proof (induction es arbitrary: st)
  case Nil
  then show ?case by (simp add: run_Nil)
next
  case (Cons e es)
  have a: "staysActive e" and b: "list_all staysActive es" using Cons.prems by simp_all
  note s = step_active_totals [OF a, of st]
  note i = Cons.IH [OF b, of "step e st"]
  show ?case
    using s i by (simp add: run_Cons delivered_Cons [of e es st] del: delivered.simps)
qed


lemma step_keeps_stopped:
  assumes "stopped st" "keepsStopped e"
  shows "stopped (step e st) \<and> requestsSent (step e st) = requestsSent st"
  using assms
  by (cases e)
     (auto simp: stopped_def render_def Let_def intervalEffect_def resetScores_def scoreResponse_def)

lemma no_requests_while_stopped:
  assumes "stopped st" "list_all keepsStopped es"
  shows "stopped (run es st) \<and> requestsSent (run es st) = requestsSent st"
  using assms
proof (induction es arbitrary: st)
  case Nil
  then show ?case by (simp add: run_Nil)
next
  case (Cons e es)
  then have "stopped (step e st)" "requestsSent (step e st) = requestsSent st"
    using step_keeps_stopped [of st e] by simp_all
  with Cons show ?case by (simp add: run_Cons)
qed

lemma step_quiet:
  assumes "stopped st" "scoresZero st" "inFlight st = 0" "keepsStopped e"
  shows "scoresZero (step e st) \<and> inFlight (step e st) = 0"
  using assms
  by (cases e)
     (auto simp: stopped_def scoresZero_def render_def Let_def intervalEffect_def resetScores_def)

lemma scores_stay_zero_when_quiet:
  assumes "stopped st" "scoresZero st" "inFlight st = 0" "list_all keepsStopped es"
  shows "scoresZero (run es st) \<and> inFlight (run es st) = 0"
  using assms
proof (induction es arbitrary: st)
  case Nil
  then show ?case by (simp add: run_Nil)
next
  case (Cons e es)
  then have "stopped (step e st)" "scoresZero (step e st)" "inFlight (step e st) = 0"
    using step_keeps_stopped [of st e] step_quiet [of st e] by simp_all
  with Cons show ?case by (simp add: run_Cons)
qed

text \<open>Evaluation of the component on the live pose.\<close>

lemma kpOf_livePose: "kpOf (Some livePose) = Some [[1/2, 1/2, 0, 1]]"
  by (simp add: kpOf_def livePose_def)

lemma mount_started:
  "mount True (Some livePose) (Some 0) =
     \<lparr> totalScore = 0, currentPoints = 0, pointGain = None, showPointGain = False,
       accuracy = 0, frameCount = 0, totalScoreRef = 0,
       isGameStarted = True, poseData = Some livePose, onScoreUpdate = Some 0,
       poseDataRef = Some livePose, isGameStartedRef = True, intervalRef = True,
       inFlight = 0, hideTimers = 0, requestsSent = 0 \<rparr>"
  by (simp add: mount_def intervalEffect_def)

lemma run_stop_in_flight:
  "run [Tick, Render False (Some livePose) (Some 0)] (mount True (Some livePose) (Some 0)) =
     \<lparr> totalScore = 0, currentPoints = 0, pointGain = None, showPointGain = False,
       accuracy = 0, frameCount = 0, totalScoreRef = 0,
       isGameStarted = False, poseData = Some livePose, onScoreUpdate = Some 0,
       poseDataRef = Some livePose, isGameStartedRef = False, intervalRef = False,
       inFlight = 1, hideTimers = 0, requestsSent = 1 \<rparr>"
  by (simp add: run_def mount_started sendPoseForScoring_def kpOf_livePose render_def Let_def
      intervalEffect_def resetScores_def)

text \<open>
  The component on its own does not re-check the game state after the
  \<open>await\<close> of sendPoseForScoring. Rendered with \<open>isGameStarted = false\<close> while
  a request is in flight, it would take the late response into the scores it
  has just reset. Neither version of App makes that render: it unmounts the
  component instead (see the section on the application below).
\<close>

lemma late_response_while_mounted:
  "isGameStarted (run lateResponseTrace (mount True (Some livePose) (Some 0))) = False \<and>
   requestsSent (run lateResponseTrace (mount True (Some livePose) (Some 0))) = 1 \<and>
   totalScore (run lateResponseTrace (mount True (Some livePose) (Some 0))) = 50 \<and>
   currentPoints (run lateResponseTrace (mount True (Some livePose) (Some 0))) = 50 \<and>
   accuracy (run lateResponseTrace (mount True (Some livePose) (Some 0))) = 50 \<and>
   frameCount (run lateResponseTrace (mount True (Some livePose) (Some 0))) = 1"
proof -
  have "run lateResponseTrace (mount True (Some livePose) (Some 0)) =
      step (Response r50)
        (run [Tick, Render False (Some livePose) (Some 0)] (mount True (Some livePose) (Some 0)))"
    by (simp add: run_def lateResponseTrace_def)
  then show ?thesis
    by (simp add: run_stop_in_flight scoreResponse_def Let_def r50_def)
qed

section \<open>The two versions of RealtimeScorer compared\<close>

lemma mount2_started:
  "mount2 True (Some livePose) (Some 0) =
     \<lparr> totalScore2 = 0, currentPoints2 = 0, pointGain2 = None, showPointGain2 = False,
       accuracy2 = 0, frameCount2 = 0, gameStartTime2 = None, totalScoreRef2 = 0,
       isGameStarted2 = True, poseData2 = Some livePose, onScoreUpdate2 = Some 0,
       closureFrameCount = 0, interval2 = True, pending2 = [], hideTimers2 = 0 \<rparr>"
  by (simp add: mount2_def)

lemma run_two_responses:
  "run twoResponsesTrace (mount True (Some livePose) (Some 0)) =
     \<lparr> totalScore = 40, currentPoints = 30, pointGain = Some 30, showPointGain = True,
       accuracy = 20, frameCount = 2, totalScoreRef = 40,
       isGameStarted = True, poseData = Some livePose, onScoreUpdate = Some 0,
       poseDataRef = Some livePose, isGameStartedRef = True, intervalRef = True,
       inFlight = 0, hideTimers = 2, requestsSent = 2 \<rparr>"
  by (simp add: run_def twoResponsesTrace_def mount_started sendPoseForScoring_def kpOf_livePose
      scoreResponse_def Let_def r10_def r30_def)

lemma run2_two_responses:
  "run2 twoResponsesTrace (mount2 True (Some livePose) (Some 0)) =
     \<lparr> totalScore2 = 40, currentPoints2 = 30, pointGain2 = Some 30, showPointGain2 = True,
       accuracy2 = 30, frameCount2 = 2, gameStartTime2 = None, totalScoreRef2 = 40,
       isGameStarted2 = True, poseData2 = Some livePose, onScoreUpdate2 = Some 0,
       closureFrameCount = 0, interval2 = True, pending2 = [], hideTimers2 = 2 \<rparr>"
  by (simp add: run2_def twoResponsesTrace_def mount2_started sendPoseForScoring2_def kpOf_livePose
      scoreResponse2_def Let_def r10_def r30_def)

lemma run_restart:
  "run restartTrace (mount True (Some livePose) (Some 0)) =
     \<lparr> totalScore = 30, currentPoints = 30, pointGain = Some 30, showPointGain = True,
       accuracy = 30, frameCount = 1, totalScoreRef = 30,
       isGameStarted = True, poseData = Some livePose, onScoreUpdate = Some 0,
       poseDataRef = Some livePose, isGameStartedRef = True, intervalRef = True,
       inFlight = 0, hideTimers = 2, requestsSent = 2 \<rparr>"
  by (simp add: run_def restartTrace_def mount_started sendPoseForScoring_def kpOf_livePose
      scoreResponse_def Let_def r10_def r30_def render_def intervalEffect_def resetScores_def)

lemma run2_restart:
  "run2 restartTrace (mount2 True (Some livePose) (Some 0)) =
     \<lparr> totalScore2 = 40, currentPoints2 = 30, pointGain2 = Some 30, showPointGain2 = True,
       accuracy2 = 30, frameCount2 = 1, gameStartTime2 = None, totalScoreRef2 = 40,
       isGameStarted2 = True, poseData2 = Some livePose, onScoreUpdate2 = Some 0,
       closureFrameCount = 0, interval2 = True, pending2 = [], hideTimers2 = 2 \<rparr>"
  by (simp add: run2_def restartTrace_def mount2_started sendPoseForScoring2_def kpOf_livePose
      scoreResponse2_def Let_def r10_def r30_def render2_def resetScores2_def)

text \<open>
  C9. The two versions should show the same total score and the same accuracy
  after each response. They do not. With the props unchanged since the mount,
  the second version's callback still sees the frame count 0 at the second
  response and shows the points of that response, 30, where the first version
  shows the average 20; the totals agree (40). Across a stop and a start the
  second version keeps its ref, which the first resets: after the responses 10
  and 30 the totals are 30 (first) and 40 (second).
\<close>

theorem scorers_differ_on_two_responses:
  "totalScore (run twoResponsesTrace (mount True (Some livePose) (Some 0))) = 40 \<and>
   totalScore2 (run2 twoResponsesTrace (mount2 True (Some livePose) (Some 0))) = 40 \<and>
   accuracy (run twoResponsesTrace (mount True (Some livePose) (Some 0))) = 20 \<and>
   accuracy2 (run2 twoResponsesTrace (mount2 True (Some livePose) (Some 0))) = 30 \<and>
   totalScore (run restartTrace (mount True (Some livePose) (Some 0))) = 30 \<and>
   totalScore2 (run2 restartTrace (mount2 True (Some livePose) (Some 0))) = 40"
  by (simp add: run_two_responses run2_two_responses run_restart run2_restart)

text \<open>
  What the two versions agree on: the total score after every non-empty run of
  responses that starts with both refs at 0, and the accuracy of a response
  whose closure saw the current frame count.
\<close>

lemma scoreResponse2_fields:
  "totalScore2 (scoreResponse2 c r st) = totalScoreRef2 st + points_earned r"
  "totalScoreRef2 (scoreResponse2 c r st) = totalScoreRef2 st + points_earned r"
  "frameCount2 (scoreResponse2 c r st) = frameCount2 st + 1"
  "accuracy2 (scoreResponse2 c r st) =
     Math_round (if c > 0 then (totalScoreRef2 st + points_earned r) / real (c + 1)
                 else points_earned r)"
  by (simp_all add: scoreResponse2_def Let_def)

lemma applyResponses2_snoc:
  "applyResponses2 (crs @ [(c, r)]) st = scoreResponse2 c r (applyResponses2 crs st)"
  by (simp add: applyResponses2_def)

lemma applyResponses2_totals:
  "totalScoreRef2 (applyResponses2 crs st) = totalScoreRef2 st + sum_list (map (points_earned \<circ> snd) crs) \<and>
   frameCount2 (applyResponses2 crs st) = frameCount2 st + length crs \<and>
   (crs \<noteq> [] \<longrightarrow> totalScore2 (applyResponses2 crs st) = totalScoreRef2 (applyResponses2 crs st))"
proof (induction crs rule: rev_induct)
  case Nil
  then show ?case by (simp add: applyResponses2_def)
next
  case (snoc cr crs)
  obtain c r where "cr = (c, r)" by (cases cr)
  with snoc show ?case by (simp add: applyResponses2_snoc scoreResponse2_fields)
qed

lemma scorers_same_total:
  assumes "crs \<noteq> []" "totalScoreRef st = 0" "totalScoreRef2 st2 = 0"
  shows "totalScore2 (applyResponses2 crs st2) = totalScore (applyResponses (map snd crs) st)"
  using assms applyResponses2_totals [of crs st2] applyResponses_totals [of "map snd crs" st]
  by (simp add: comp_def)

lemma scorers_same_accuracy_if_fresh:
  assumes "totalScoreRef st = totalScoreRef2 st2" "frameCount st = frameCount2 st2"
    and "frameCount2 st2 = 0 \<longrightarrow> totalScoreRef2 st2 = 0"
  shows "accuracy2 (scoreResponse2 (frameCount2 st2) r st2) = accuracy (scoreResponse r st)"
  using assms by (simp add: scoreResponse2_fields scoreResponse_fields)

section \<open>Properties of the application\<close>

lemma appRun_Cons: "appRun (e # es) a = appRun es (appStep e a)"
  by (simp add: appRun_def)

lemma appRun_Nil: "appRun [] a = a"
  by (simp add: appRun_def)






text \<open>
  Whatever happens, a mounted instance has \<open>isGameStarted\<close> true and its timer
  set: the branch of the effect that resets the scores is never taken in the
  application, which discards the state by unmounting.
\<close>

lemma step_keeps_started:
  assumes "staysActive e" "isGameStarted c" "isGameStartedRef c" "intervalRef c"
  shows "isGameStarted (step e c) \<and> isGameStartedRef (step e c) \<and> intervalRef (step e c)"
  using assms
  by (cases e)
     (auto simp: render_def Let_def intervalEffect_def sendPoseForScoring_def scoreResponse_def)

lemma appStep_startedInstance:
  assumes "startedInstance a"
  shows "startedInstance (appStep e a)"
proof (cases "scorerInstance a")
  case None
  then show ?thesis
    by (cases e) (auto simp: startedInstance_def onScorer_def mount_def intervalEffect_def)
next
  case (Some c)
  then have c: "isGameStarted c" "isGameStartedRef c" "intervalRef c"
    using assms by (simp_all add: startedInstance_def)
  show ?thesis
  proof (cases e)
    case (AppRender g p cb)
    then show ?thesis
      using Some c step_keeps_started [OF _ c, of "Render True p cb"]
      by (auto simp: startedInstance_def)
  next
    case IntervalFires
    then show ?thesis using Some step_keeps_started [OF _ c, of Tick]
      by (simp add: startedInstance_def onScorer_def)
  next
    case (ResponseArrives r)
    then show ?thesis using Some step_keeps_started [OF _ c, of "Response r"]
      by (simp add: startedInstance_def onScorer_def)
  next
    case RequestFails
    then show ?thesis using Some step_keeps_started [OF _ c, of RequestFailed]
      by (simp add: startedInstance_def onScorer_def)
  next
    case HideTimerFires
    then show ?thesis using Some step_keeps_started [OF _ c, of HideTimer]
      by (simp add: startedInstance_def onScorer_def)
  next
    case (OrphanResponseArrives r)
    then show ?thesis using Some c by (simp add: startedInstance_def)
  next
    case OrphanRequestFails
    then show ?thesis using Some c by (simp add: startedInstance_def)
  qed
qed

lemma appRun_startedInstance: "startedInstance (appRun es initialApp)"
proof -
  have "startedInstance a \<Longrightarrow> startedInstance (appRun es a)" for a
  proof (induction es arbitrary: a)
    case Nil
    then show ?case by (simp add: appRun_Nil)
  next
    case (Cons e es)
    then show ?case by (simp add: appRun_Cons appStep_startedInstance)
  qed
  moreover have "startedInstance initialApp" by (simp add: startedInstance_def initialApp_def)
  ultimately show ?thesis by blast
qed





section \<open>Properties of the comparator\<close>

text \<open>
  Both sides of a self-comparison resample the same timeline, so the two
  vectors of a sample are equal whatever the interpolation gives, and the
  cosine of a non-zero vector with itself is 1.
\<close>

lemma dot_self_nonneg: "0 \<le> dot a a"
  unfolding dot_def by (induction a) simp_all

lemma cosineScore_self: "cosineScore a a = (if magnitude a = 0 then None else Some 1)"
proof (cases "magnitude a = 0")
  case True
  then show ?thesis by (simp add: cosineScore_def)
next
  case False
  have sq: "magnitude a * magnitude a = dot a a"
    unfolding magnitude_def using dot_self_nonneg [of a] by simp
  have nz: "dot a a \<noteq> 0" using False by (simp add: magnitude_def)
  have one: "dot a a / (magnitude a * magnitude a) = 1" using sq nz by simp
  show ?thesis using False by (simp only: cosineScore_def one) simp
qed

lemma sampleScore_self: "sampleScore tline tline q = None \<or> sampleScore tline tline q = Some 1"
  by (simp add: sampleScore_def cosineScore_self split: option.splits)

lemma sampleScore_self_defined:
  assumes "angleVector tline q = Some a" "magnitude a \<noteq> 0"
  shows "sampleScore tline tline q = Some 1"
  using assms by (simp add: sampleScore_def cosineScore_self)

lemma sampleScore_self_eq:
  "sampleScore tline tline q =
     (case angleVector tline q of None \<Rightarrow> None
      | Some a \<Rightarrow> if dot a a = 0 then None else Some 1)"
  by (simp add: sampleScore_def cosineScore_self magnitude_def split: option.splits)

lemma map_filter_all_one:
  assumes "\<forall>p \<in> set samples. snd p = None \<or> snd p = Some (1::real)"
  shows "\<forall>v \<in> set (List.map_filter snd samples). v = 1"
  using assms by (auto simp: List.map_filter_def)

lemma all_one_aggregate:
  assumes "\<forall>v \<in> set (valid :: real list). v = 1" "valid \<noteq> []"
  shows "sum_list valid / real (length valid) = 1 \<and> Min (set valid) = 1 \<and> Max (set valid) = 1"
proof -
  have s: "set valid = {1}" using assms by (cases valid) auto
  have "sum_list valid = real (length valid)"
    using assms(1) by (induction valid) simp_all
  moreover have "length valid \<noteq> 0" using assms(2) by simp
  ultimately show ?thesis using s by simp
qed

lemma length_sampleTimes: "length (sampleTimes a b N) = N"
  by (simp add: sampleTimes_def)

text \<open>Evaluation on the three timelines.\<close>

lemma sampleTimes_unit_3: "sampleTimes 0 1 3 = [0, 1/2, 1]"
  by (simp add: sampleTimes_def upt_conv_Cons)

lemma overlap_oneRecord: "overlapWindow oneRecordTimeline oneRecordTimeline = Inl NoOverlap"
  by (simp add: overlapWindow_def oneRecordTimeline_def)

lemma overlap_zeroStart: "overlapWindow zeroStartTimeline zeroStartTimeline = Inr (0, 1)"
  by (simp add: overlapWindow_def zeroStartTimeline_def)

lemma overlap_bend: "overlapWindow bendTimeline bendTimeline = Inr (0, 1)"
  by (simp add: overlapWindow_def bendTimeline_def)

lemma angleVector_zeroStart:
  "angleVector zeroStartTimeline 0 = Some [0, 0, 0, 0]"
  "angleVector zeroStartTimeline (1/2) = Some [1/2, 1/2, 1/2, 1/2]"
  "angleVector zeroStartTimeline 1 = Some [1, 1, 1, 1]"
  by (simp_all add: angleVector_def validPoints_def List.map_filter_def interpolate_def
      zeroStartTimeline_def)

lemma angleVector_bend:
  "angleVector bendTimeline 0 = Some [1, 1, 3, 3]"
  "angleVector bendTimeline (1/2) = Some [2, 2, 2, 2]"
  "angleVector bendTimeline 1 = Some [3, 3, 1, 1]"
  by (simp_all add: angleVector_def validPoints_def List.map_filter_def interpolate_def
      bendTimeline_def)

lemma sampleScore_zeroStart:
  "sampleScore zeroStartTimeline zeroStartTimeline 0 = None"
  "sampleScore zeroStartTimeline zeroStartTimeline (1/2) = Some 1"
  "sampleScore zeroStartTimeline zeroStartTimeline 1 = Some 1"
  by (simp_all add: sampleScore_self_eq angleVector_zeroStart dot_def)

lemma sampleScore_bend:
  "sampleScore bendTimeline bendTimeline 0 = Some 1"
  "sampleScore bendTimeline bendTimeline (1/2) = Some 1"
  "sampleScore bendTimeline bendTimeline 1 = Some 1"
  by (simp_all add: sampleScore_self_eq angleVector_bend dot_def)

lemma compare_zeroStart:
  "compareTimelines zeroStartTimeline zeroStartTimeline 3 =
     Inr \<lparr> r_mean = 1, r_min = 1, r_max = 1,
           series = [(0, None), (1/2, Some 1), (1, Some 1)] \<rparr>"
  by (simp add: compareTimelines_def overlap_zeroStart sampleTimes_unit_3 sampleScore_zeroStart
      map_filter_simps)

lemma compare_bend:
  "compareTimelines bendTimeline bendTimeline 3 =
     Inr \<lparr> r_mean = 1, r_min = 1, r_max = 1,
           series = [(0, Some 1), (1/2, Some 1), (1, Some 1)] \<rparr>"
  by (simp add: compareTimelines_def overlap_bend sampleTimes_unit_3 sampleScore_bend
      map_filter_simps)

text \<open>
  C8, as stated, fails for some timelines. A timeline with one record has
  \<open>t_start = t_end\<close>, and its comparison with itself fails with "no overlap".
  A timeline whose first record has all four angles at 0 has a vector of zero
  magnitude at the first sample timestamp: that sample is undefined, not 1.0
  (the aggregate over the two other samples is 1).
\<close>

theorem self_comparison_counterexample:
  "compareTimelines oneRecordTimeline oneRecordTimeline 3 = Inl NoOverlap \<and>
   sampleScore zeroStartTimeline zeroStartTimeline 0 = None \<and>
   compareTimelines zeroStartTimeline zeroStartTimeline 3 =
     Inr \<lparr> r_mean = 1, r_min = 1, r_max = 1,
           series = [(0, None), (1/2, Some 1), (1, Some 1)] \<rparr>"
proof -
  have "compareTimelines oneRecordTimeline oneRecordTimeline 3 = Inl NoOverlap"
    by (simp add: compareTimelines_def overlap_oneRecord)
  then show ?thesis by (simp add: sampleScore_zeroStart compare_zeroStart)
qed

text \<open>
  C8, amended. When a timeline is compared with itself, the similarity of a
  sample is 1 wherever it is defined, and it is defined wherever the
  resampled vector exists and is not of zero magnitude; when the comparison
  succeeds (the timestamps span a positive range and at least 2 samples are
  defined) the series has \<open>N\<close> samples, each undefined or 1, and the mean, the
  minimum and the maximum are all 1.
\<close>

theorem self_comparison:
  "(sampleScore tline tline q = None \<or> sampleScore tline tline q = Some 1) \<and>
   (\<forall>a. angleVector tline q = Some a \<and> magnitude a \<noteq> 0 \<longrightarrow> sampleScore tline tline q = Some 1) \<and>
   (\<forall>rep. compareTimelines tline tline N = Inr rep \<longrightarrow>
      length (series rep) = N \<and>
      (\<forall>(q', s) \<in> set (series rep). s = None \<or> s = Some 1) \<and>
      r_mean rep = 1 \<and> r_min rep = 1 \<and> r_max rep = 1)"
proof (intro conjI allI impI)
  show "sampleScore tline tline q = None \<or> sampleScore tline tline q = Some 1"
    by (rule sampleScore_self)
next
  fix a assume "angleVector tline q = Some a \<and> magnitude a \<noteq> 0"
  then show "sampleScore tline tline q = Some 1" by (simp add: sampleScore_self_defined)
next
  fix rep assume ok: "compareTimelines tline tline N = Inr rep"
  then obtain t_start t_end where w: "overlapWindow tline tline = Inr (t_start, t_end)"
    by (auto simp: compareTimelines_def split: sum.splits)
  let ?samples = "map (\<lambda>q. (q, sampleScore tline tline q)) (sampleTimes t_start t_end N)"
  let ?valid = "List.map_filter snd ?samples"
  from ok w have len: "\<not> length ?valid < 2"
    and rep: "rep = \<lparr> r_mean = sum_list ?valid / real (length ?valid),
                         r_min = Min (set ?valid), r_max = Max (set ?valid),
                         series = ?samples \<rparr>"
    by (auto simp: compareTimelines_def Let_def split: if_splits)
  have ones: "\<forall>p \<in> set ?samples. snd p = None \<or> snd p = Some 1"
    using sampleScore_self by auto
  then have v1: "\<forall>v \<in> set ?valid. v = 1" by (rule map_filter_all_one)
  have ne: "?valid \<noteq> []" using len by auto
  from all_one_aggregate [OF v1 ne]
  have agg: "sum_list ?valid / real (length ?valid) = 1" "Min (set ?valid) = 1"
    "Max (set ?valid) = 1"
    by blast+
  show "length (series rep) = N" by (simp add: rep length_sampleTimes)
  show "\<forall>(q', s) \<in> set (series rep). s = None \<or> s = Some 1"
    using ones by (auto simp: rep)
  show "r_mean rep = 1" by (simp only: rep report.simps agg)
  show "r_min rep = 1" by (simp only: rep report.simps agg)
  show "r_max rep = 1" by (simp only: rep report.simps agg)
qed

theorem self_comparison_witness:
  "angleVector bendTimeline (1/2) = Some [2, 2, 2, 2] \<and> magnitude [2, 2, 2, 2] \<noteq> 0 \<and>
   sampleScore bendTimeline bendTimeline (1/2) = Some 1 \<and>
   compareTimelines bendTimeline bendTimeline 3 =
     Inr \<lparr> r_mean = 1, r_min = 1, r_max = 1,
           series = [(0, Some 1), (1/2, Some 1), (1, Some 1)] \<rparr>"
proof -
  have v: "angleVector bendTimeline (1/2) = Some [2, 2, 2, 2]" by (rule angleVector_bend)
  have m: "magnitude [2, 2, 2, 2] \<noteq> 0" by (simp add: magnitude_def dot_def)
  from self_comparison [of bendTimeline "1/2" 3] v m
  have s: "sampleScore bendTimeline bendTimeline (1/2) = Some 1" by blast
  show ?thesis using v m s compare_bend by simp
qed

end
